theory Spec2Isabelle
  imports Main
begin

section \<open>JavaScript values\<close>

text \<open>
  The data provider of \<^verbatim>\<open>src/index.ts\<close> (its latest revision, the one the tests import)
  is a set of functions over dynamically typed JavaScript values. A value is modelled
  by the datatype below. Numbers are the integers, which JavaScript prints in plain
  decimal up to a magnitude of \<open>10\<^sup>2\<^sup>1\<close> (no fractions, no \<^verbatim>\<open>NaN\<close>). A string is a list of characters;
  the model is exact for ASCII text. An object is the list of its own enumerable
  properties in the order \<^verbatim>\<open>Object.entries\<close> yields them, with pairwise distinct keys
  (keys that look like array indices, which JavaScript moves to the front, are not
  treated specially).
\<close>

datatype jsval =
    JUndefined
  | JNull
  | JBool bool
  | JNum int
  | JStr string
  | JArr "jsval list"
  | JObj "(string \<times> jsval) list"

type_synonym object = "(string \<times> jsval) list"

text \<open>The errors the code can raise: the two JavaScript exceptions, and whatever the
  injected HTTP client fails with.\<close>

datatype error = TypeError string | URIError string | TransportError string

text \<open>\<^verbatim>\<open>!!v\<close>: the falsy values are \<^verbatim>\<open>undefined\<close>, \<^verbatim>\<open>null\<close>, \<^verbatim>\<open>false\<close>,
  \<^verbatim>\<open>0\<close> and the empty string; arrays and objects are truthy, also when empty.\<close>

fun truthy :: "jsval \<Rightarrow> bool" where
  "truthy JUndefined = False"
| "truthy JNull = False"
| "truthy (JBool b) = b"
| "truthy (JNum n) = (n \<noteq> 0)"
| "truthy (JStr s) = (s \<noteq> [])"
| "truthy (JArr xs) = True"
| "truthy (JObj es) = True"

text \<open>The decimal digits of a number; \<open>digit_char\<close> is only applied to numbers below ten.\<close>

definition digit_char :: "nat \<Rightarrow> char" where
  "digit_char d = ''0123456789'' ! d"

fun show_nat :: "nat \<Rightarrow> string" where
  "show_nat n =
     (if n < 10 then [digit_char n] else show_nat (n div 10) @ [digit_char (n mod 10)])"

declare show_nat.simps [simp del]

definition show_int :: "int \<Rightarrow> string" where
  "show_int i = (if i < 0 then CHR ''-'' # show_nat (nat (- i)) else show_nat (nat i))"

text \<open>Strings joined with a separator between neighbours.\<close>

fun str_join :: "string \<Rightarrow> string list \<Rightarrow> string" where
  "str_join sep [] = []"
| "str_join sep [x] = x"
| "str_join sep (x # y # ys) = x @ sep @ str_join sep (y # ys)"

text \<open>The string conversion of template literals and of \<^verbatim>\<open>String(v)\<close>. An array prints
  its elements separated by commas, \<^verbatim>\<open>null\<close> and \<^verbatim>\<open>undefined\<close> elements as nothing.\<close>

fun ToString :: "jsval \<Rightarrow> string" where
  "ToString JUndefined = ''undefined''"
| "ToString JNull = ''null''"
| "ToString (JBool b) = (if b then ''true'' else ''false'')"
| "ToString (JNum n) = show_int n"
| "ToString (JStr s) = s"
| "ToString (JArr xs) =
     str_join '','' (map (\<lambda>x. if x = JUndefined \<or> x = JNull then [] else ToString x) xs)"
| "ToString (JObj es) = ''[object Object]''"

text \<open>\<^verbatim>\<open>Array.prototype.join\<close>.\<close>

definition array_join :: "string \<Rightarrow> jsval list \<Rightarrow> string" where
  "array_join sep xs =
     str_join sep (map (\<lambda>x. if x = JUndefined \<or> x = JNull then [] else ToString x) xs)"

text \<open>\<^verbatim>\<open>xs[i]\<close>: reading past the end of an array yields \<^verbatim>\<open>undefined\<close>.\<close>

definition index :: "jsval list \<Rightarrow> nat \<Rightarrow> jsval" where
  "index xs i = (if i < length xs then xs ! i else JUndefined)"

text \<open>\<^verbatim>\<open>String.prototype.slice(start, end)\<close>: a negative position counts from the end of
  the string, every position is clamped to the string, and an empty range yields the
  empty string. \<open>slice_from\<close> is the call with one argument.\<close>

definition slice :: "string \<Rightarrow> int \<Rightarrow> int \<Rightarrow> string" where
  "slice s start end =
     (let len = int (length s);
          from = (if start < 0 then max (len + start) 0 else min start len);
          to = (if end < 0 then max (len + end) 0 else min end len)
      in take (nat (to - from)) (drop (nat from) s))"

definition slice_from :: "string \<Rightarrow> int \<Rightarrow> string" where
  "slice_from s start = slice s start (int (length s))"

text \<open>Reading a property that an object does not have yields \<^verbatim>\<open>undefined\<close>; so does
  reading \<^verbatim>\<open>records\<close> or \<^verbatim>\<open>results\<close>, the only properties the code reads, from an
  array, a string, a number or a boolean.\<close>

definition get_property :: "jsval \<Rightarrow> string \<Rightarrow> jsval" where
  "get_property v k =
     (case v of
        JObj es \<Rightarrow> (case map_of es k of Some x \<Rightarrow> x | None \<Rightarrow> JUndefined)
      | _ \<Rightarrow> JUndefined)"

text \<open>Writing a property keeps the position of a key the object has and appends a new
  key; the spread \<^verbatim>\<open>{ ...a, ...b }\<close> writes the properties of \<open>b\<close> in order, and
  spreading \<^verbatim>\<open>undefined\<close> writes nothing.\<close>

definition obj_set :: "string \<Rightarrow> jsval \<Rightarrow> object \<Rightarrow> object" where
  "obj_set k v es =
     (if k \<in> fst ` set es then map (\<lambda>e. if fst e = k then (k, v) else e) es
      else es @ [(k, v)])"

definition obj_spread :: "object \<Rightarrow> object option \<Rightarrow> object" where
  "obj_spread base src =
     (case src of None \<Rightarrow> base | Some es \<Rightarrow> foldl (\<lambda>acc e. obj_set (fst e) (snd e) acc) base es)"

section \<open>The filter compiler\<close>

definition filterOperators :: "string list" where
  "filterOperators =
     [''cs'', ''sw'', ''ew'', ''eq'', ''lt'', ''le'', ''ge'', ''gt'', ''bt'', ''in'', ''is'']"

definition searchOperator :: string where
  "searchOperator = ''q''"

definition APISearchParam :: string where
  "APISearchParam = ''search''"

definition APIFilterParam :: string where
  "APIFilterParam = ''filter''"

definition isValidFilterOperator :: "string \<Rightarrow> bool" where
  "isValidFilterOperator v = (v \<in> set filterOperators)"

text \<open>\<^verbatim>\<open>formatFilterArguments\<close>: the \<^verbatim>\<open>switch\<close> on the operator. The default branch returns
  the value itself, not a string.\<close>

definition formatFilterArguments :: "string \<Rightarrow> jsval \<Rightarrow> error + jsval" where
  \<open>formatFilterArguments operator v =
     (if operator = ''bt'' then
        (case v of
           JArr xs \<Rightarrow> Inr (JStr (ToString (index xs 0) @ '','' @ ToString (index xs 1)))
         | _ \<Rightarrow>
           Inl (TypeError ''Array expected as filter value for filter type "between" (bt)''))
      else if operator = ''in'' then
        (case v of
           JArr xs \<Rightarrow> Inr (JStr (array_join '','' xs))
         | _ \<Rightarrow> Inl (TypeError ''Array expected as filter value for filter type "in"''))
      else if operator = ''is'' then Inr JNull
      else Inr v)\<close>

text \<open>The callback that \<^verbatim>\<open>formatFilter\<close> maps over the entries of the filter object.
  The three components are filtered by truthiness before they are joined.\<close>

definition formatFilterEntry :: "string \<times> jsval \<Rightarrow> error + string \<times> jsval" where
  "formatFilterEntry e =
     (let key = fst e; v = snd e in
      if key = searchOperator then Inr (APISearchParam, v)
      else
        let suffix = slice_from key (- 2) in
        if slice key (- 3) (- 2) = ''_'' \<and> isValidFilterOperator suffix then
          (case formatFilterArguments suffix v of
             Inl err \<Rightarrow> Inl err
           | Inr a \<Rightarrow>
               Inr (APIFilterParam,
                 JStr (array_join '',''
                   (filter truthy [JStr (slice key 0 (- 3)), JStr suffix, a]))))
        else if slice key (- 4) (- 2) = ''_n'' \<and> isValidFilterOperator suffix then
          (case formatFilterArguments suffix v of
             Inl err \<Rightarrow> Inl err
           | Inr a \<Rightarrow>
               Inr (APIFilterParam,
                 JStr (array_join '',''
                   (filter truthy [JStr (slice key 0 (- 4)), JStr (''n'' @ suffix), a]))))
        else Inr (APIFilterParam, JStr (key @ '',eq,'' @ ToString v)))"

text \<open>\<^verbatim>\<open>Object.entries(filter).map(...)\<close>: the entries are compiled in order, and the
  first entry that throws ends the call.\<close>

fun formatFilter :: "object \<Rightarrow> error + (string \<times> jsval) list" where
  "formatFilter [] = Inr []"
| "formatFilter (e # es) =
     (case formatFilterEntry e of
        Inl err \<Rightarrow> Inl err
      | Inr p \<Rightarrow>
          (case formatFilter es of Inl err \<Rightarrow> Inl err | Inr ps \<Rightarrow> Inr (p # ps)))"

section \<open>Query strings\<close>

text \<open>\<^verbatim>\<open>URLSearchParams.prototype.toString\<close>: the form-urlencoded serializer keeps
  letters, digits and \<^verbatim>\<open>*-._\<close>, writes a space as \<^verbatim>\<open>+\<close> and every other character
  as a percent sign and two upper-case hexadecimal digits.\<close>

text \<open>\<open>hexDigit\<close> is only applied to the two halves of a character code, which are below
  sixteen.\<close>

definition hexDigit :: "nat \<Rightarrow> char" where
  "hexDigit n = ''0123456789ABCDEF'' ! n"

definition unreserved :: "char \<Rightarrow> bool" where
  "unreserved c =
     (c \<in> set ''abcdefghijklmnopqrstuvwxyzABCDEFGHIJKLMNOPQRSTUVWXYZ0123456789*-._'')"

definition encodeChar :: "char \<Rightarrow> string" where
  "encodeChar c =
     (if c = CHR '' '' then ''+''
      else if unreserved c then [c]
      else [CHR ''%'', hexDigit (of_char c div 16), hexDigit (of_char c mod 16)])"

definition urlencode :: "string \<Rightarrow> string" where
  "urlencode s = concat (map encodeChar s)"

definition URLSearchParams_toString :: "(string \<times> string) list \<Rightarrow> string" where
  "URLSearchParams_toString ps =
     str_join ''&'' (map (\<lambda>p. urlencode (fst p) @ ''='' @ urlencode (snd p)) ps)"

text \<open>\<^verbatim>\<open>decodeURIComponent\<close>: a percent sign and two hexadecimal digits become the
  character with that code; a percent sign followed by anything else is a
  \<^verbatim>\<open>URIError\<close>.\<close>

definition hexValue :: "char \<Rightarrow> nat option" where
  "hexValue c =
     (if c \<in> set ''0123456789'' then Some (of_char c - 48)
      else if c \<in> set ''ABCDEF'' then Some (of_char c - 55)
      else if c \<in> set ''abcdef'' then Some (of_char c - 87)
      else None)"

fun decodeURIComponent :: "string \<Rightarrow> error + string" where
  "decodeURIComponent [] = Inr []"
| "decodeURIComponent (c # cs) =
     (if c = CHR ''%'' then
        (case cs of
           h # l # rest \<Rightarrow>
             (case (hexValue h, hexValue l) of
                (Some a, Some b) \<Rightarrow>
                  (case decodeURIComponent rest of
                     Inl err \<Rightarrow> Inl err
                   | Inr r \<Rightarrow> Inr (char_of (16 * a + b) # r))
              | _ \<Rightarrow> Inl (URIError ''URI malformed''))
         | _ \<Rightarrow> Inl (URIError ''URI malformed''))
      else
        (case decodeURIComponent cs of
           Inl err \<Rightarrow> Inl err
         | Inr r \<Rightarrow> Inr (c # r)))"

text \<open>An identifier is a string or a number.\<close>

datatype Identifier = IdStr string | IdNum int

fun id_value :: "Identifier \<Rightarrow> jsval" where
  "id_value (IdStr s) = JStr s"
| "id_value (IdNum n) = JNum n"

text \<open>\<^verbatim>\<open>IParams\<close>: every key is optional, \<open>None\<close> is a key the caller left out. The
  callers in this file write \<^verbatim>\<open>order\<close> before \<^verbatim>\<open>page\<close>, which is the order the
  query string lists them in.\<close>

record IParams =
  p_order :: "string option"
  p_page :: "string option"
  p_filter :: "object option"
  p_meta :: "object option"
  p_id :: "Identifier option"
  p_ids :: "Identifier list option"

text \<open>\<^verbatim>\<open>new URLSearchParams(rest)\<close>: the entries of the parameters that are left once the
  filter and the metadata are taken out, each value as a string.\<close>

definition rest_entries :: "IParams \<Rightarrow> (string \<times> string) list" where
  "rest_entries params =
     (case p_order params of None \<Rightarrow> [] | Some v \<Rightarrow> [(''order'', v)]) @
     (case p_page params of None \<Rightarrow> [] | Some v \<Rightarrow> [(''page'', v)]) @
     (case p_id params of None \<Rightarrow> [] | Some i \<Rightarrow> [(''id'', ToString (id_value i))]) @
     (case p_ids params of None \<Rightarrow> [] | Some is \<Rightarrow> [(''ids'', array_join '','' (map id_value is))])"

text \<open>\<^verbatim>\<open>formatParams\<close>: the pairs of the compiled filter and of the metadata (but for the
  keys \<^verbatim>\<open>order\<close>, \<^verbatim>\<open>page\<close> and \<^verbatim>\<open>filter\<close>) are appended; the serialized pairs are decoded
  once and prefixed with a question mark, unless there is no pair.\<close>

definition formatParams :: "IParams \<Rightarrow> error + string" where
  "formatParams params =
     (case (case p_filter params of None \<Rightarrow> Inr [] | Some f \<Rightarrow> formatFilter f) of
        Inl err \<Rightarrow> Inl err
      | Inr pairs \<Rightarrow>
          let urlParams =
                rest_entries params @
                map (\<lambda>p. (fst p, ToString (snd p))) pairs @
                map (\<lambda>p. (fst p, ToString (snd p)))
                  (filter (\<lambda>p. fst p \<notin> set [''order'', ''page'', ''filter''])
                    (case p_meta params of None \<Rightarrow> [] | Some m \<Rightarrow> m));
              urlParamsString = URLSearchParams_toString urlParams
          in if urlParamsString = [] then Inr []
             else (case decodeURIComponent urlParamsString of
                     Inl err \<Rightarrow> Inl err
                   | Inr d \<Rightarrow> Inr (''?'' @ d)))"

section \<open>The resource client\<close>

text \<open>A request is what the HTTP client is called with: the URL, and the options when
  there are any (the client issues a GET without them). The body is the JSON text of
  a value; the text itself is not modelled.\<close>

datatype json_text = JSON_stringify jsval

record fetch_options =
  http_method :: string
  body :: "json_text option"

record request =
  url :: string
  options :: "fetch_options option"

text \<open>The client either fails or answers with a decoded JSON body.\<close>

record TreeQLDataProvider =
  apiUrl :: string
  httpClient :: "request \<Rightarrow> error + jsval"

text \<open>The constructor strips one trailing slash from the base URL.\<close>

definition new_TreeQLDataProvider ::
  "string \<Rightarrow> (request \<Rightarrow> error + jsval) \<Rightarrow> TreeQLDataProvider" where
  "new_TreeQLDataProvider api_url client =
     \<lparr>apiUrl = (if api_url \<noteq> [] \<and> last api_url = CHR ''/'' then slice api_url 0 (- 1)
                else api_url),
      httpClient = client\<rparr>"

text \<open>\<^verbatim>\<open>getURL\<close>: the record segment is that of a truthy \<^verbatim>\<open>id\<close>, else that of \<^verbatim>\<open>ids\<close> when
  there are any (an array is truthy), else empty; the query string is that of the
  parameters without \<^verbatim>\<open>id\<close> and \<^verbatim>\<open>ids\<close>.\<close>

definition getURL :: "TreeQLDataProvider \<Rightarrow> string \<Rightarrow> IParams \<Rightarrow> error + string" where
  "getURL this resource params =
     (let ids_segment =
            (case p_ids params of
               Some is \<Rightarrow> ''/'' @ array_join '','' (map id_value is)
             | None \<Rightarrow> []);
          record_segment =
            (case p_id params of
               Some i \<Rightarrow>
                 if truthy (id_value i) then ''/'' @ ToString (id_value i) else ids_segment
             | None \<Rightarrow> ids_segment)
      in case formatParams (params\<lparr>p_id := None, p_ids := None\<rparr>) of
           Inl err \<Rightarrow> Inl err
         | Inr query \<Rightarrow> Inr (apiUrl this @ ''/records/'' @ resource @ record_segment @ query))"

text \<open>Every operation returns the requests it has issued, in order, and its outcome:
  an error or a result.\<close>

record GetListParams =
  gl_page :: int
  gl_perPage :: int
  gl_field :: string
  gl_order :: string
  gl_filter :: "object option"
  gl_meta :: "object option"

record GetListResult =
  data :: jsval
  total :: jsval

text \<open>The pattern \<^verbatim>\<open>{ json: { records, results } }\<close>: destructuring \<^verbatim>\<open>null\<close> or \<^verbatim>\<open>undefined\<close>
  throws, anything else yields the two properties, \<^verbatim>\<open>undefined\<close> where there is none.\<close>

definition records_and_results :: "jsval \<Rightarrow> error + GetListResult" where
  "records_and_results json =
     (if json = JUndefined \<or> json = JNull
      then Inl (TypeError ''Cannot destructure the response'')
      else Inr \<lparr>data = get_property json ''records'', total = get_property json ''results''\<rparr>)"

definition getList ::
  "TreeQLDataProvider \<Rightarrow> string \<Rightarrow> GetListParams \<Rightarrow> request list \<times> (error + GetListResult)" where
  "getList this resource params =
     (case getURL this resource
             \<lparr>p_order = Some (gl_field params @ '','' @ gl_order params),
              p_page = Some (show_int (gl_page params) @ '','' @ show_int (gl_perPage params)),
              p_filter = gl_filter params, p_meta = gl_meta params,
              p_id = None, p_ids = None\<rparr> of
        Inl err \<Rightarrow> ([], Inl err)
      | Inr u \<Rightarrow>
          let req = \<lparr>url = u, options = None\<rparr> in
          (case httpClient this req of
             Inl err \<Rightarrow> ([req], Inl err)
           | Inr json \<Rightarrow> ([req], records_and_results json)))"

record GetManyReferenceParams =
  mr_id :: Identifier
  mr_target :: string
  mr_page :: int
  mr_perPage :: int
  mr_field :: string
  mr_order :: string
  mr_filter :: "object option"
  mr_meta :: "object option"

definition getManyReference ::
  "TreeQLDataProvider \<Rightarrow> string \<Rightarrow> GetManyReferenceParams \<Rightarrow>
     request list \<times> (error + GetListResult)" where
  "getManyReference this resource params =
     (case getURL this resource
             \<lparr>p_order = Some (mr_field params @ '','' @ mr_order params),
              p_page = Some (show_int (mr_page params) @ '','' @ show_int (mr_perPage params)),
              p_filter =
                Some (obj_set (mr_target params) (id_value (mr_id params))
                        (obj_spread [] (mr_filter params))),
              p_meta = mr_meta params, p_id = None, p_ids = None\<rparr> of
        Inl err \<Rightarrow> ([], Inl err)
      | Inr u \<Rightarrow>
          let req = \<lparr>url = u, options = None\<rparr> in
          (case httpClient this req of
             Inl err \<Rightarrow> ([req], Inl err)
           | Inr json \<Rightarrow> ([req], records_and_results json)))"

record GetOneParams =
  go_id :: Identifier
  go_meta :: "object option"

definition getOne ::
  "TreeQLDataProvider \<Rightarrow> string \<Rightarrow> GetOneParams \<Rightarrow> request list \<times> (error + jsval)" where
  "getOne this resource params =
     (case getURL this resource
             \<lparr>p_order = None, p_page = None, p_filter = None, p_meta = go_meta params,
              p_id = Some (go_id params), p_ids = None\<rparr> of
        Inl err \<Rightarrow> ([], Inl err)
      | Inr u \<Rightarrow>
          let req = \<lparr>url = u, options = None\<rparr> in
          (case httpClient this req of
             Inl err \<Rightarrow> ([req], Inl err)
           | Inr json \<Rightarrow> ([req], Inr json)))"

record UpdateParams =
  up_id :: Identifier
  up_data :: object
  up_previousData :: "object option"
  up_meta :: "object option"

definition update ::
  "TreeQLDataProvider \<Rightarrow> string \<Rightarrow> UpdateParams \<Rightarrow> request list \<times> (error + object)" where
  "update this resource params =
     (case getURL this resource
             \<lparr>p_order = None, p_page = None, p_filter = None, p_meta = up_meta params,
              p_id = Some (up_id params), p_ids = None\<rparr> of
        Inl err \<Rightarrow> ([], Inl err)
      | Inr u \<Rightarrow>
          let req = \<lparr>url = u,
                     options = Some \<lparr>http_method = ''PUT'',
                                     body = Some (JSON_stringify (JObj (up_data params)))\<rparr>\<rparr>
          in
          (case httpClient this req of
             Inl err \<Rightarrow> ([req], Inl err)
           | Inr json \<Rightarrow>
               ([req],
                Inr (obj_spread
                       (obj_spread [(''id'', id_value (up_id params))] (up_previousData params))
                       (Some (up_data params))))))"

record DeleteParams =
  de_id :: Identifier
  de_previousData :: "object option"
  de_meta :: "object option"

definition delete ::
  "TreeQLDataProvider \<Rightarrow> string \<Rightarrow> DeleteParams \<Rightarrow> request list \<times> (error + object)" where
  "delete this resource params =
     (case getURL this resource
             \<lparr>p_order = None, p_page = None, p_filter = None, p_meta = de_meta params,
              p_id = Some (de_id params), p_ids = None\<rparr> of
        Inl err \<Rightarrow> ([], Inl err)
      | Inr u \<Rightarrow>
          let req = \<lparr>url = u, options = Some \<lparr>http_method = ''DELETE'', body = None\<rparr>\<rparr> in
          (case httpClient this req of
             Inl err \<Rightarrow> ([req], Inl err)
           | Inr json \<Rightarrow>
               ([req],
                Inr (obj_spread [(''id'', id_value (de_id params))] (de_previousData params)))))"

section \<open>Facts about the string functions\<close>

lemma slice_neg_neg:
  "slice s (- int (Suc a)) (- int (Suc b)) =
     take ((length s - Suc b) - (length s - Suc a)) (drop (length s - Suc a) s)"
proof -
  have 1: "nat (max (int (length s) + - int (Suc a)) 0) = length s - Suc a" by auto
  have 2: "nat (max (int (length s) + - int (Suc b)) 0 - max (int (length s) + - int (Suc a)) 0)
             = (length s - Suc b) - (length s - Suc a)" by auto
  show ?thesis
    unfolding slice_def Let_def using 1 2 by simp
qed

lemma slice_0_neg: "slice s 0 (- int (Suc b)) = take (length s - Suc b) s"
proof -
  have "nat (max (int (length s) + - int (Suc b)) 0 - min 0 (int (length s))) = length s - Suc b"
    by auto
  then show ?thesis unfolding slice_def Let_def by simp
qed

lemma slice_from_neg: "slice_from s (- int (Suc a)) = drop (length s - Suc a) s"
proof -
  have 1: "nat (max (int (length s) + - int (Suc a)) 0) = length s - Suc a" by auto
  show ?thesis unfolding slice_from_def slice_def Let_def using 1 by simp
qed

lemma slice_3_2: "slice s (- 3) (- 2) = take ((length s - 2) - (length s - 3)) (drop (length s - 3) s)"
  using slice_neg_neg [of s 2 1] by (simp add: eval_nat_numeral)

lemma slice_4_2: "slice s (- 4) (- 2) = take ((length s - 2) - (length s - 4)) (drop (length s - 4) s)"
  using slice_neg_neg [of s 3 1] by (simp add: eval_nat_numeral)

lemma slice_0_3: "slice s 0 (- 3) = take (length s - 3) s"
  using slice_0_neg [of s 2] by (simp add: eval_nat_numeral)

lemma slice_0_4: "slice s 0 (- 4) = take (length s - 4) s"
  using slice_0_neg [of s 3] by (simp add: eval_nat_numeral)

lemma slice_0_1: "slice s 0 (- 1) = take (length s - 1) s"
  using slice_0_neg [of s 0] by simp

lemma slice_from_2: "slice_from s (- 2) = drop (length s - 2) s"
  using slice_from_neg [of s 1] by (simp add: eval_nat_numeral)

lemmas slice_neg_simps = slice_3_2 slice_4_2 slice_0_3 slice_0_4 slice_from_2

lemma slice_last3:
  "slice (f @ [a, b, c]) (- 3) (- 2) = [a]"
  "slice_from (f @ [a, b, c]) (- 2) = [b, c]"
  "slice (f @ [a, b, c]) 0 (- 3) = f"
  by (simp_all add: slice_neg_simps)

lemma slice_last4:
  "slice (f @ [a, b, c, d]) (- 4) (- 2) = [a, b]"
  "slice (f @ [a, b, c, d]) (- 3) (- 2) = [b]"
  "slice_from (f @ [a, b, c, d]) (- 2) = [c, d]"
  "slice (f @ [a, b, c, d]) 0 (- 4) = f"
  by (simp_all add: slice_neg_simps)

lemma list3: "length t = Suc (Suc (Suc 0)) \<Longrightarrow> \<exists>x y z. t = [x, y, z]"
  by (auto simp: length_Suc_conv)

lemma list4: "length t = Suc (Suc (Suc (Suc 0))) \<Longrightarrow> \<exists>w x y z. t = [w, x, y, z]"
  by (auto simp: length_Suc_conv)

lemma length3_split:
  assumes "3 \<le> length key"
  shows "\<exists>f x y z. key = f @ [x, y, z]"
proof -
  have "length (drop (length key - 3) key) = Suc (Suc (Suc 0))" using assms by simp
  then obtain x y z where "drop (length key - 3) key = [x, y, z]"
    using list3 by blast
  then have "key = take (length key - 3) key @ [x, y, z]"
    by (metis append_take_drop_id)
  then show ?thesis by blast
qed

lemma length4_split:
  assumes "4 \<le> length key"
  shows "\<exists>f w x y z. key = f @ [w, x, y, z]"
proof -
  have "length (drop (length key - 4) key) = Suc (Suc (Suc (Suc 0)))" using assms by simp
  then obtain w x y z where "drop (length key - 4) key = [w, x, y, z]"
    using list4 by blast
  then have "key = take (length key - 4) key @ [w, x, y, z]"
    by (metis append_take_drop_id)
  then show ?thesis by blast
qed

lemma slice_3_decompose:
  assumes "slice key (- 3) (- 2) = [c]"
  shows "\<exists>f x y. key = f @ [c, x, y]"
proof -
  have "3 \<le> length key"
  proof (rule ccontr)
    assume "\<not> 3 \<le> length key"
    then have "slice key (- 3) (- 2) = []" by (simp add: slice_3_2)
    with assms show False by simp
  qed
  then obtain f a x y where k: "key = f @ [a, x, y]"
    using length3_split by blast
  with assms have "a = c" by (simp add: slice_last3)
  with k show ?thesis by blast
qed

lemma slice_4_decompose:
  assumes "slice key (- 4) (- 2) = [c, d]"
  shows "\<exists>f x y. key = f @ [c, d, x, y]"
proof -
  have "4 \<le> length key"
  proof (rule ccontr)
    assume "\<not> 4 \<le> length key"
    then have "length (slice key (- 4) (- 2)) < 2" by (simp add: slice_4_2)
    with assms show False by simp
  qed
  then obtain f a b x y where k: "key = f @ [a, b, x, y]"
    using length4_split by blast
  with assms have "a = c \<and> b = d" by (simp add: slice_last4)
  with k show ?thesis by blast
qed

section \<open>Facts about the filter compiler\<close>

lemma valid_operator_length: "isValidFilterOperator op \<Longrightarrow> \<exists>x y. op = [x, y]"
  by (auto simp: isValidFilterOperator_def filterOperators_def)

lemma entry_search: "formatFilterEntry (searchOperator, v) = Inr (APISearchParam, v)"
  by (simp add: formatFilterEntry_def)

lemma entry_operator:
  assumes "isValidFilterOperator op"
  shows "formatFilterEntry (field @ ''_'' @ op, v) =
           (case formatFilterArguments op v of
              Inl err \<Rightarrow> Inl err
            | Inr a \<Rightarrow> Inr (APIFilterParam,
                JStr (array_join '','' (filter truthy [JStr field, JStr op, a]))))"
proof -
  obtain x y where op: "op = [x, y]" using valid_operator_length [OF assms] by blast
  have "field @ ''_'' @ op \<noteq> searchOperator" by (simp add: op searchOperator_def)
  then show ?thesis
    using assms by (simp add: formatFilterEntry_def Let_def op slice_last3 split: sum.split)
qed

lemma entry_negated_operator:
  assumes "isValidFilterOperator op"
  shows "formatFilterEntry (field @ ''_n'' @ op, v) =
           (case formatFilterArguments op v of
              Inl err \<Rightarrow> Inl err
            | Inr a \<Rightarrow> Inr (APIFilterParam,
                JStr (array_join '','' (filter truthy [JStr field, JStr (''n'' @ op), a]))))"
proof -
  obtain x y where op: "op = [x, y]" using valid_operator_length [OF assms] by blast
  have "field @ ''_n'' @ op \<noteq> searchOperator" by (simp add: op searchOperator_def)
  then show ?thesis
    using assms by (simp add: formatFilterEntry_def Let_def op slice_last4 split: sum.split)
qed

lemma entry_other:
  assumes "key \<noteq> searchOperator"
    and "\<And>field op. isValidFilterOperator op \<Longrightarrow> key \<noteq> field @ ''_'' @ op"
    and "\<And>field op. isValidFilterOperator op \<Longrightarrow> key \<noteq> field @ ''_n'' @ op"
  shows "formatFilterEntry (key, v) = Inr (APIFilterParam, JStr (key @ '',eq,'' @ ToString v))"
proof -
  have 1: "\<not> (slice key (- 3) (- 2) = ''_'' \<and> isValidFilterOperator (slice_from key (- 2)))"
  proof
    assume h: "slice key (- 3) (- 2) = ''_'' \<and> isValidFilterOperator (slice_from key (- 2))"
    then obtain f x y where k: "key = f @ [CHR ''_'', x, y]"
      using slice_3_decompose by blast
    with h have "isValidFilterOperator [x, y]" by (simp add: slice_last3)
    from assms(2) [OF this, of f] k show False by simp
  qed
  have 2: "\<not> (slice key (- 4) (- 2) = ''_n'' \<and> isValidFilterOperator (slice_from key (- 2)))"
  proof
    assume h: "slice key (- 4) (- 2) = ''_n'' \<and> isValidFilterOperator (slice_from key (- 2))"
    then obtain f x y where k: "key = f @ [CHR ''_'', CHR ''n'', x, y]"
      using slice_4_decompose by blast
    with h have "isValidFilterOperator [x, y]" by (simp add: slice_last4)
    from assms(3) [OF this, of f] k show False by simp
  qed
  show ?thesis
    by (simp only: formatFilterEntry_def Let_def fst_conv snd_conv
          if_not_P [OF assms(1)] if_not_P [OF 1] if_not_P [OF 2])
qed

lemma formatFilter_Inr_nth:
  "formatFilter f = Inr ps \<Longrightarrow>
     length ps = length f \<and> (\<forall>i<length f. formatFilterEntry (f ! i) = Inr (ps ! i))"
proof (induction f arbitrary: ps)
  case Nil
  then show ?case by simp
next
  case (Cons e es)
  then obtain p qs where p: "formatFilterEntry e = Inr p" and qs: "formatFilter es = Inr qs"
    and ps: "ps = p # qs"
    by (auto split: sum.splits)
  from Cons.IH [OF qs] show ?case
    by (auto simp: ps p nth_Cons split: nat.splits)
qed

lemma formatFilter_append:
  "formatFilter pre = Inr ps \<Longrightarrow>
     formatFilter (pre @ rest) =
       (case formatFilter rest of Inl err \<Rightarrow> Inl err | Inr qs \<Rightarrow> Inr (ps @ qs))"
  by (induction pre arbitrary: ps) (auto split: sum.splits)

lemma array_join_three:
  "truthy a \<Longrightarrow> field \<noteq> [] \<Longrightarrow> op \<noteq> [] \<Longrightarrow>
     array_join '','' (filter truthy [JStr field, JStr op, a]) = field @ '','' @ op @ '','' @ ToString a"
  by (cases a) (auto simp: array_join_def)

lemma array_join_two:
  "field \<noteq> [] \<Longrightarrow> op \<noteq> [] \<Longrightarrow>
     array_join '','' (filter truthy [JStr field, JStr op, JNull]) = field @ '','' @ op"
  by (auto simp: array_join_def)

lemmas filter_eval =
  formatFilterEntry_def formatFilterArguments_def slice_def slice_from_def
  isValidFilterOperator_def filterOperators_def searchOperator_def APISearchParam_def
  APIFilterParam_def array_join_def index_def show_int_def show_nat.simps digit_char_def Let_def

lemma entry_fst:
  assumes "formatFilterEntry (key, v) = Inr p" and "key \<noteq> searchOperator"
  shows "fst p = APIFilterParam"
proof -
  have "\<exists>s. formatFilterEntry (key, v) = Inr (APIFilterParam, s) \<or>
          (\<exists>err. formatFilterEntry (key, v) = Inl err)"
    using assms(2) by (simp add: formatFilterEntry_def Let_def split: sum.split)
  with assms(1) show ?thesis by auto
qed

section \<open>Facts about query strings\<close>

lemma hexValue_hexDigit: "n < 16 \<Longrightarrow> hexValue (hexDigit n) = Some n"
proof -
  assume "n < 16"
  then have "n \<in> {0, 1, 2, 3, 4, 5, 6, 7, 8, 9, 10, 11, 12, 13, 14, 15}"
    by simp arith
  then show ?thesis
    by (elim insertE emptyE) (simp_all add: hexValue_def hexDigit_def)
qed

lemma char_of_hex_digits:
  "char_of (16 * (of_char c div 16 :: nat) + of_char c mod 16) = c"
  by simp

lemma unreserved_not_percent: "unreserved c \<Longrightarrow> c \<noteq> CHR ''%''"
  by (auto simp: unreserved_def)

lemma decode_plain:
  "c \<noteq> CHR ''%'' \<Longrightarrow>
     decodeURIComponent (c # t) =
       (case decodeURIComponent t of Inl err \<Rightarrow> Inl err | Inr r \<Rightarrow> Inr (c # r))"
  by simp

lemma decode_escape:
  "decodeURIComponent (CHR ''%'' # hexDigit (of_char c div 16) # hexDigit (of_char c mod 16) # t) =
     (case decodeURIComponent t of Inl err \<Rightarrow> Inl err | Inr r \<Rightarrow> Inr (c # r))"
proof -
  have "(of_char c :: nat) div 16 < 16"
    by (simp add: less_mult_imp_div_less)
  moreover have "(of_char c :: nat) mod 16 < 16" by simp
  ultimately show ?thesis
    by (simp add: hexValue_hexDigit split: sum.split)
qed

lemma decode_encodeChar:
  "decodeURIComponent (encodeChar c @ t) =
     (case decodeURIComponent t of
        Inl err \<Rightarrow> Inl err
      | Inr r \<Rightarrow> Inr ((if c = CHR '' '' then CHR ''+'' else c) # r))"
proof (cases "c = CHR '' ''")
  case True
  then show ?thesis by (simp add: encodeChar_def)
next
  case False
  show ?thesis
  proof (cases "unreserved c")
    case True
    with False unreserved_not_percent [OF True] show ?thesis
      by (simp add: encodeChar_def)
  next
    case u: False
    with False show ?thesis
      using decode_escape [of c t] by (simp add: encodeChar_def)
  qed
qed

lemma decode_urlencode:
  "decodeURIComponent (urlencode s @ t) =
     (case decodeURIComponent t of
        Inl err \<Rightarrow> Inl err
      | Inr r \<Rightarrow> Inr (map (\<lambda>c. if c = CHR '' '' then CHR ''+'' else c) s @ r))"
proof (induction s)
  case Nil
  then show ?case by (simp add: urlencode_def split: sum.split)
next
  case (Cons c s)
  have "urlencode (c # s) @ t = encodeChar c @ (urlencode s @ t)"
    by (simp add: urlencode_def)
  then show ?case
    using Cons.IH by (simp add: decode_encodeChar split: sum.split)
qed

lemma decode_pair:
  "decodeURIComponent (urlencode k @ ''='' @ urlencode v @ t) =
     (case decodeURIComponent t of
        Inl err \<Rightarrow> Inl err
      | Inr r \<Rightarrow> Inr (map (\<lambda>c. if c = CHR '' '' then CHR ''+'' else c) k @ ''='' @
                       map (\<lambda>c. if c = CHR '' '' then CHR ''+'' else c) v @ r))"
proof -
  have "decodeURIComponent (''='' @ urlencode v @ t) =
     (case decodeURIComponent t of
        Inl err \<Rightarrow> Inl err
      | Inr r \<Rightarrow> Inr (''='' @ map (\<lambda>c. if c = CHR '' '' then CHR ''+'' else c) v @ r))"
    using decode_urlencode [of v t] by (simp split: sum.split)
  then show ?thesis
    using decode_urlencode [of k "''='' @ urlencode v @ t"] by (simp split: sum.split)
qed

lemma decode_URLSearchParams:
  "decodeURIComponent (URLSearchParams_toString ps) =
     Inr (str_join ''&''
       (map (\<lambda>p. map (\<lambda>c. if c = CHR '' '' then CHR ''+'' else c) (fst p) @ ''='' @
                  map (\<lambda>c. if c = CHR '' '' then CHR ''+'' else c) (snd p)) ps))"
proof (induction ps rule: induct_list012)
  case 1
  then show ?case by (simp add: URLSearchParams_toString_def)
next
  case (2 p)
  then show ?case
    using decode_pair [of "fst p" "snd p" "[]"] by (simp add: URLSearchParams_toString_def)
next
  case (3 p q ps)
  have "URLSearchParams_toString (p # q # ps) =
          urlencode (fst p) @ ''='' @ urlencode (snd p) @ (''&'' @ URLSearchParams_toString (q # ps))"
    by (simp add: URLSearchParams_toString_def)
  moreover have "decodeURIComponent (''&'' @ URLSearchParams_toString (q # ps)) =
      (case decodeURIComponent (URLSearchParams_toString (q # ps)) of
         Inl err \<Rightarrow> Inl err | Inr r \<Rightarrow> Inr (''&'' @ r))"
    by (simp split: sum.split)
  ultimately show ?case
    using 3(2) decode_pair [of "fst p" "snd p" "''&'' @ URLSearchParams_toString (q # ps)"]
    by simp
qed

lemma URLSearchParams_toString_empty: "URLSearchParams_toString ps = [] \<longleftrightarrow> ps = []"
  by (induction ps rule: induct_list012) (simp_all add: URLSearchParams_toString_def)

section \<open>Facts about the resource client\<close>

lemma formatParams_Inr:
  assumes "(case p_filter params of None \<Rightarrow> Inr [] | Some f \<Rightarrow> formatFilter f) = Inr pairs"
  shows "formatParams params =
    Inr (let ps = rest_entries params @
                  map (\<lambda>p. (fst p, ToString (snd p))) pairs @
                  map (\<lambda>p. (fst p, ToString (snd p)))
                    (filter (\<lambda>p. fst p \<notin> set [''order'', ''page'', ''filter''])
                      (case p_meta params of None \<Rightarrow> [] | Some m \<Rightarrow> m))
         in if ps = [] then []
            else ''?'' @ str_join ''&''
              (map (\<lambda>p. map (\<lambda>c. if c = CHR '' '' then CHR ''+'' else c) (fst p) @ ''='' @
                         map (\<lambda>c. if c = CHR '' '' then CHR ''+'' else c) (snd p)) ps))"
  unfolding formatParams_def assms Let_def
  by (simp only: sum.case decode_URLSearchParams URLSearchParams_toString_empty if_distrib
        cong: if_cong) simp

lemma formatParams_Inl:
  assumes "p_filter params = Some f" and "formatFilter f = Inl err"
  shows "formatParams params = Inl err"
  by (simp add: formatParams_def assms)

lemma formatParams_meta_only:
  "\<exists>q. formatParams \<lparr>p_order = None, p_page = None, p_filter = None, p_meta = meta,
          p_id = None, p_ids = None\<rparr> = Inr q \<and> (meta = None \<longrightarrow> q = [])"
proof -
  let ?p = "\<lparr>p_order = None, p_page = None, p_filter = None, p_meta = meta,
             p_id = None, p_ids = None\<rparr>"
  have "(case p_filter ?p of None \<Rightarrow> Inr [] | Some f \<Rightarrow> formatFilter f) = Inr []" by simp
  from formatParams_Inr [OF this] show ?thesis
    by (cases meta) (simp_all add: rest_entries_def Let_def)
qed

lemma falsy_id: "truthy (id_value i) \<longleftrightarrow> \<not> (i = IdNum 0 \<or> i = IdStr [])"
  by (cases i) auto

lemma getURL_single_id:
  assumes "formatParams \<lparr>p_order = None, p_page = None, p_filter = None, p_meta = meta,
             p_id = None, p_ids = None\<rparr> = Inr q"
  shows "getURL this resource \<lparr>p_order = None, p_page = None, p_filter = None, p_meta = meta,
             p_id = Some i, p_ids = None\<rparr> =
           Inr (apiUrl this @ ''/records/'' @ resource @
                (if i = IdNum 0 \<or> i = IdStr [] then [] else ''/'' @ ToString (id_value i)) @ q)"
  using assms by (simp add: getURL_def Let_def falsy_id)

lemma getURL_no_id:
  assumes "formatParams \<lparr>p_order = None, p_page = None, p_filter = None, p_meta = meta,
             p_id = None, p_ids = None\<rparr> = Inr q"
  shows "getURL this resource \<lparr>p_order = None, p_page = None, p_filter = None, p_meta = meta,
             p_id = None, p_ids = None\<rparr> =
           Inr (apiUrl this @ ''/records/'' @ resource @ q)"
  using assms by (simp add: getURL_def Let_def)

lemma getOne_requests:
  assumes "getURL this resource \<lparr>p_order = None, p_page = None, p_filter = None,
             p_meta = go_meta params, p_id = Some (go_id params), p_ids = None\<rparr> = Inr u"
  shows "fst (getOne this resource params) = [\<lparr>url = u, options = None\<rparr>]"
  using assms by (simp add: getOne_def Let_def split: sum.split)

lemma update_requests:
  assumes "getURL this resource \<lparr>p_order = None, p_page = None, p_filter = None,
             p_meta = up_meta params, p_id = Some (up_id params), p_ids = None\<rparr> = Inr u"
  shows "fst (update this resource params) =
           [\<lparr>url = u, options = Some \<lparr>http_method = ''PUT'',
               body = Some (JSON_stringify (JObj (up_data params)))\<rparr>\<rparr>]"
  using assms by (simp add: update_def Let_def split: sum.split)

lemma delete_requests:
  assumes "getURL this resource \<lparr>p_order = None, p_page = None, p_filter = None,
             p_meta = de_meta params, p_id = Some (de_id params), p_ids = None\<rparr> = Inr u"
  shows "fst (delete this resource params) =
           [\<lparr>url = u, options = Some \<lparr>http_method = ''DELETE'', body = None\<rparr>\<rparr>]"
  using assms by (simp add: delete_def Let_def split: sum.split)


lemma apiUrl_trailing_slash:
  "apiUrl (new_TreeQLDataProvider (base @ ''/'') client) = base"
  by (simp add: new_TreeQLDataProvider_def slice_0_1)

lemmas url_eval =
  getURL_def formatParams_def rest_entries_def decode_URLSearchParams
  URLSearchParams_toString_empty obj_spread_def obj_set_def

lemma httpClient_new: "httpClient (new_TreeQLDataProvider api client) = client"
  by (simp add: new_TreeQLDataProvider_def)

lemma update_outcome:
  "\<exists>req. fst (update this resource params) = [req] \<and>
     snd (update this resource params) =
       (case httpClient this req of
          Inl err \<Rightarrow> Inl err
        | Inr json \<Rightarrow>
            Inr (obj_spread
                   (obj_spread [(''id'', id_value (up_id params))] (up_previousData params))
                   (Some (up_data params))))"
proof -
  obtain q where "formatParams \<lparr>p_order = None, p_page = None, p_filter = None,
      p_meta = up_meta params, p_id = None, p_ids = None\<rparr> = Inr q"
    using formatParams_meta_only by blast
  from getURL_single_id [OF this, of this resource "up_id params"] show ?thesis
    unfolding update_def by (simp add: Let_def split: sum.split)
qed

lemma delete_outcome:
  "\<exists>req. fst (delete this resource params) = [req] \<and>
     snd (delete this resource params) =
       (case httpClient this req of
          Inl err \<Rightarrow> Inl err
        | Inr json \<Rightarrow>
            Inr (obj_spread [(''id'', id_value (de_id params))] (de_previousData params)))"
proof -
  obtain q where "formatParams \<lparr>p_order = None, p_page = None, p_filter = None,
      p_meta = de_meta params, p_id = None, p_ids = None\<rparr> = Inr q"
    using formatParams_meta_only by blast
  from getURL_single_id [OF this, of this resource "de_id params"] show ?thesis
    unfolding delete_def by (simp add: Let_def split: sum.split)
qed

lemma getList_one_request:
  assumes "fst (getList this resource params) = [req]"
  shows "snd (getList this resource params) =
           (case httpClient this req of
              Inl err \<Rightarrow> Inl err
            | Inr json \<Rightarrow> records_and_results json)"
  using assms unfolding getList_def
  by (auto simp: Let_def split: sum.splits)

section \<open>Facts about failing filters\<close>

lemma arguments_error:
  assumes "formatFilterArguments op w = Inl err"
  shows \<open>(op = ''bt'' \<and> err = TypeError ''Array expected as filter value for filter type "between" (bt)'' \<or>
          op = ''in'' \<and> err = TypeError ''Array expected as filter value for filter type "in"'') \<and>
         (\<forall>xs. w \<noteq> JArr xs)\<close>
  using assms by (cases w) (auto simp: formatFilterArguments_def split: if_splits)

lemma arguments_not_array:
  assumes "\<forall>xs. w \<noteq> JArr xs"
  shows \<open>formatFilterArguments ''bt'' w =
           Inl (TypeError ''Array expected as filter value for filter type "between" (bt)'')\<close>
    and \<open>formatFilterArguments ''in'' w =
           Inl (TypeError ''Array expected as filter value for filter type "in"'')\<close>
  using assms by (cases w; simp add: formatFilterArguments_def)+

lemma entry_not_array:
  assumes "\<forall>xs. w \<noteq> JArr xs"
  shows \<open>formatFilterEntry (field @ ''_bt'', w) =
           Inl (TypeError ''Array expected as filter value for filter type "between" (bt)'')\<close>
    and \<open>formatFilterEntry (field @ ''_nbt'', w) =
           Inl (TypeError ''Array expected as filter value for filter type "between" (bt)'')\<close>
    and \<open>formatFilterEntry (field @ ''_in'', w) =
           Inl (TypeError ''Array expected as filter value for filter type "in"'')\<close>
    and \<open>formatFilterEntry (field @ ''_nin'', w) =
           Inl (TypeError ''Array expected as filter value for filter type "in"'')\<close>
proof -
  have bt: "isValidFilterOperator ''bt''" and i: "isValidFilterOperator ''in''"
    by (simp_all add: isValidFilterOperator_def filterOperators_def)
  show \<open>formatFilterEntry (field @ ''_bt'', w) =
           Inl (TypeError ''Array expected as filter value for filter type "between" (bt)'')\<close>
    using entry_operator [OF bt, of field w] arguments_not_array(1) [OF assms] by simp
  show \<open>formatFilterEntry (field @ ''_nbt'', w) =
           Inl (TypeError ''Array expected as filter value for filter type "between" (bt)'')\<close>
    using entry_negated_operator [OF bt, of field w] arguments_not_array(1) [OF assms] by simp
  show \<open>formatFilterEntry (field @ ''_in'', w) =
           Inl (TypeError ''Array expected as filter value for filter type "in"'')\<close>
    using entry_operator [OF i, of field w] arguments_not_array(2) [OF assms] by simp
  show \<open>formatFilterEntry (field @ ''_nin'', w) =
           Inl (TypeError ''Array expected as filter value for filter type "in"'')\<close>
    using entry_negated_operator [OF i, of field w] arguments_not_array(2) [OF assms] by simp
qed

lemma entry_error_cases:
  assumes "formatFilterEntry (k, w) = Inl err"
  shows "(slice k (- 3) (- 2) = ''_'' \<or> slice k (- 4) (- 2) = ''_n'') \<and>
         formatFilterArguments (slice_from k (- 2)) w = Inl err"
  using assms
  by (auto simp: formatFilterEntry_def Let_def split: if_splits sum.splits)

lemma entry_error_offender:
  assumes "formatFilterEntry (k, w) = Inl err"
  shows "(\<exists>field. k = field @ ''_bt'' \<or> k = field @ ''_nbt'' \<or>
                  k = field @ ''_in'' \<or> k = field @ ''_nin'') \<and> (\<forall>xs. w \<noteq> JArr xs)"
proof -
  from entry_error_cases [OF assms]
  have s: "slice k (- 3) (- 2) = ''_'' \<or> slice k (- 4) (- 2) = ''_n''"
    and a: "formatFilterArguments (slice_from k (- 2)) w = Inl err" by simp_all
  from arguments_error [OF a]
  have op: "slice_from k (- 2) = ''bt'' \<or> slice_from k (- 2) = ''in''" and w: "\<forall>xs. w \<noteq> JArr xs"
    by auto
  from s have "\<exists>field. k = field @ ''_bt'' \<or> k = field @ ''_nbt'' \<or>
                  k = field @ ''_in'' \<or> k = field @ ''_nin''"
  proof
    assume "slice k (- 3) (- 2) = ''_''"
    then obtain f x y where k: "k = f @ [CHR ''_'', x, y]" using slice_3_decompose by blast
    with op have "[x, y] = ''bt'' \<or> [x, y] = ''in''" by (simp add: slice_last3)
    with k show ?thesis by auto
  next
    assume "slice k (- 4) (- 2) = ''_n''"
    then obtain f x y where k: "k = f @ [CHR ''_'', CHR ''n'', x, y]"
      using slice_4_decompose by blast
    with op have "[x, y] = ''bt'' \<or> [x, y] = ''in''" by (simp add: slice_last4)
    with k show ?thesis by auto
  qed
  with w show ?thesis by simp
qed

lemma entry_error_kinds:
  assumes "formatFilterEntry e = Inl err"
  shows \<open>err = TypeError ''Array expected as filter value for filter type "between" (bt)'' \<or>
         err = TypeError ''Array expected as filter value for filter type "in"''\<close>
proof -
  obtain k w where e: "e = (k, w)" by (cases e)
  from entry_error_cases [OF assms [unfolded e]] arguments_error show ?thesis by blast
qed

lemma formatFilter_error_kinds:
  assumes "formatFilter f = Inl err"
  shows \<open>err = TypeError ''Array expected as filter value for filter type "between" (bt)'' \<or>
         err = TypeError ''Array expected as filter value for filter type "in"''\<close>
  using assms
proof (induction f)
  case Nil
  then show ?case by simp
next
  case (Cons e es)
  show ?case
  proof (cases "formatFilterEntry e")
    case (Inl x)
    with Cons.prems have "x = err" by simp
    with entry_error_kinds [OF Inl] show ?thesis by simp
  next
    case (Inr p)
    with Cons.prems have "formatFilter es = Inl err" by (simp split: sum.splits)
    then show ?thesis by (rule Cons.IH)
  qed
qed

lemma formatFilter_all_entries:
  assumes "\<forall>e \<in> set f. \<exists>p. formatFilterEntry e = Inr p"
  shows "\<exists>ps. formatFilter f = Inr ps"
  using assms by (induction f) auto

lemma formatFilter_failing_entry:
  assumes "e \<in> set f" and "formatFilterEntry e = Inl x"
  shows "\<exists>err. formatFilter f = Inl err"
  using assms by (induction f) (auto split: sum.splits)

lemma formatFilter_first_error:
  assumes "\<forall>e \<in> set pre. \<exists>p. formatFilterEntry e = Inr p" and "formatFilterEntry e = Inl err"
  shows "formatFilter (pre @ e # post) = Inl err"
proof -
  obtain ps where "formatFilter pre = Inr ps"
    using formatFilter_all_entries [OF assms(1)] by blast
  from formatFilter_append [OF this, of "e # post"] assms(2) show ?thesis by simp
qed

lemma getList_filter_error:
  assumes "gl_filter params = Some f" and "formatFilter f = Inl err"
  shows "getList this resource params = ([], Inl err)"
  unfolding getList_def by (simp add: getURL_def formatParams_def assms)

lemma getManyReference_filter_error:
  assumes "formatFilter (obj_set (mr_target params) (id_value (mr_id params))
             (obj_spread [] (mr_filter params))) = Inl err"
  shows "getManyReference this resource params = ([], Inl err)"
  unfolding getManyReference_def by (simp add: getURL_def formatParams_def assms)

lemma obj_set_other: "(k, w) \<in> set es \<Longrightarrow> k \<noteq> t \<Longrightarrow> (k, w) \<in> set (obj_set t x es)"
  by (force simp: obj_set_def)

lemma obj_set_same: "(t, x) \<in> set (obj_set t x es)"
  by (force simp: obj_set_def)

lemma spread_distinct:
  "distinct (map fst (base @ f)) \<Longrightarrow>
     foldl (\<lambda>acc e. obj_set (fst e) (snd e) acc) base f = base @ f"
proof (induction f arbitrary: base)
  case Nil
  then show ?case by simp
next
  case (Cons e f)
  have "obj_set (fst e) (snd e) base = base @ [e]"
    using Cons.prems by (auto simp: obj_set_def)
  moreover have "distinct (map fst ((base @ [e]) @ f))" using Cons.prems by simp
  ultimately show ?case using Cons.IH [of "base @ [e]"] by simp
qed

lemma obj_spread_copy: "distinct (map fst f) \<Longrightarrow> obj_spread [] (Some f) = f"
  using spread_distinct [of "[]" f] by (simp add: obj_spread_def)

text \<open>Every \<open>update\<close> issues one request, a PUT whose body is the JSON text of the data;
  the record segment of its URL is there unless the identifier is \<^verbatim>\<open>0\<close> or empty.\<close>

lemma update_one_put:
  "\<exists>q. formatParams \<lparr>p_order = None, p_page = None, p_filter = None,
           p_meta = up_meta params, p_id = None, p_ids = None\<rparr> = Inr q \<and>
     fst (update this resource params) =
       [\<lparr>url = apiUrl this @ ''/records/'' @ resource @
                (if up_id params = IdNum 0 \<or> up_id params = IdStr [] then []
                 else ''/'' @ ToString (id_value (up_id params))) @ q,
         options = Some \<lparr>http_method = ''PUT'',
           body = Some (JSON_stringify (JObj (up_data params)))\<rparr>\<rparr>]"
proof -
  obtain q where q: "formatParams \<lparr>p_order = None, p_page = None, p_filter = None,
      p_meta = up_meta params, p_id = None, p_ids = None\<rparr> = Inr q"
    using formatParams_meta_only by blast
  from update_requests [OF getURL_single_id [OF q, of this resource "up_id params"]] q
  show ?thesis by blast
qed

text \<open>For the operators that pass the value on as it is, the value component is there when
  the value is truthy and only then.\<close>

lemma operator_value_component:
  assumes "isValidFilterOperator op" and "op \<noteq> ''bt''" and "op \<noteq> ''in''" and "op \<noteq> ''is''"
    and "field \<noteq> []"
  shows "formatFilterEntry (field @ ''_'' @ op, v) =
           Inr (''filter'',
             JStr (if truthy v then field @ '','' @ op @ '','' @ ToString v else field @ '','' @ op))"
proof -
  have a: "formatFilterArguments op v = Inr v"
    using assms(2-4) by (simp add: formatFilterArguments_def)
  obtain x y where op: "op = [x, y]" using valid_operator_length [OF assms(1)] by blast
  show ?thesis
  proof (cases "truthy v")
    case True
    then have "array_join '','' (filter truthy [JStr field, JStr op, v]) =
        field @ '','' @ op @ '','' @ ToString v"
      using assms(5) op by (intro array_join_three) simp_all
    with True entry_operator [OF assms(1), of field v] a show ?thesis
      by (simp add: APIFilterParam_def)
  next
    case False
    then have "array_join '','' (filter truthy [JStr field, JStr op, v]) = field @ '','' @ op"
      using assms(5) op by (simp add: array_join_def)
    with False entry_operator [OF assms(1), of field v] a show ?thesis
      by (simp add: APIFilterParam_def)
  qed
qed

section \<open>Claims about the filter compiler\<close>

text \<open>
  Claim C1, as the code has it. Let \<open>formatFilter\<close> return the pairs \<open>ps\<close> for the filter
  object \<open>f\<close> (no entry throws), and let the \<open>i\<close>-th entry have a key other than the
  search key \<^verbatim>\<open>q\<close>. Then the \<open>i\<close>-th pair is a \<^verbatim>\<open>filter\<close> parameter, and
  \<^item> when the key is a non-empty field name followed by \<^verbatim>\<open>_<op>\<close>, with \<^verbatim>\<open><op>\<close> one of the
    eleven operator codes, and the formatted value is truthy, the pair's value is
    \<^verbatim>\<open><field>,<op>,<formatted value>\<close>, the field being the key without its last three
    characters;
  \<^item> when the key is a non-empty field name followed by \<^verbatim>\<open>_n<op>\<close>, the operator code is
    prefixed with \<^verbatim>\<open>n\<close> and the field is the key without its last four characters;
  \<^item> for the operator \<^verbatim>\<open>is\<close> (and \<^verbatim>\<open>nis\<close>) the value is \<^verbatim>\<open><field>,is\<close>, with no third
    component;
  \<^item> for every other key, near misses such as \<^verbatim>\<open>_xy\<close> and \<^verbatim>\<open>_nxy\<close> included, the value is
    \<^verbatim>\<open><key>,eq,<value>\<close> with the whole key as the field name.
  Nothing is said here about a formatted value that is falsy or a field name that is
  empty.
\<close>

theorem formatFilter_suffix_dispatch:
  assumes "formatFilter f = Inr ps" and "i < length f" and "f ! i = (key, v)"
    and "key \<noteq> ''q''"
  shows "length ps = length f \<and> fst (ps ! i) = ''filter'' \<and>
    (\<forall>field op a. key = field @ ''_'' @ op \<and> op \<in> set filterOperators \<and> field \<noteq> [] \<and>
        formatFilterArguments op v = Inr a \<and> truthy a \<longrightarrow>
        snd (ps ! i) = JStr (field @ '','' @ op @ '','' @ ToString a)) \<and>
    (\<forall>field op a. key = field @ ''_n'' @ op \<and> op \<in> set filterOperators \<and> field \<noteq> [] \<and>
        formatFilterArguments op v = Inr a \<and> truthy a \<longrightarrow>
        snd (ps ! i) = JStr (field @ '',n'' @ op @ '','' @ ToString a)) \<and>
    (\<forall>field. key = field @ ''_is'' \<and> field \<noteq> [] \<longrightarrow> snd (ps ! i) = JStr (field @ '',is'')) \<and>
    (\<forall>field. key = field @ ''_nis'' \<and> field \<noteq> [] \<longrightarrow> snd (ps ! i) = JStr (field @ '',nis'')) \<and>
    ((\<forall>field op. op \<in> set filterOperators \<longrightarrow>
         key \<noteq> field @ ''_'' @ op \<and> key \<noteq> field @ ''_n'' @ op) \<longrightarrow>
       snd (ps ! i) = JStr (key @ '',eq,'' @ ToString v))"
proof -
  have key: "key \<noteq> searchOperator" using assms(4) by (simp add: searchOperator_def)
  from formatFilter_Inr_nth [OF assms(1)] assms(2,3)
  have len: "length ps = length f" and e: "formatFilterEntry (key, v) = Inr (ps ! i)"
    by auto
  have is_valid: "isValidFilterOperator ''is''"
    by (simp add: isValidFilterOperator_def filterOperators_def)
  have is_args: "formatFilterArguments ''is'' v = Inr JNull"
    by (simp add: formatFilterArguments_def)
  have c1: "snd (ps ! i) = JStr (field @ '','' @ op @ '','' @ ToString a)"
    if "key = field @ ''_'' @ op" "op \<in> set filterOperators" "field \<noteq> []"
       "formatFilterArguments op v = Inr a" "truthy a" for field op a
  proof -
    have v: "isValidFilterOperator op" using that(2) by (simp add: isValidFilterOperator_def)
    then have "op \<noteq> []" using valid_operator_length by auto
    then have "array_join '','' (filter truthy [JStr field, JStr op, a])
            = field @ '','' @ op @ '','' @ ToString a"
      using that by (intro array_join_three) simp_all
    with e that entry_operator [OF v, of field v] show ?thesis
      by simp
  qed
  have c2: "snd (ps ! i) = JStr (field @ '',n'' @ op @ '','' @ ToString a)"
    if "key = field @ ''_n'' @ op" "op \<in> set filterOperators" "field \<noteq> []"
       "formatFilterArguments op v = Inr a" "truthy a" for field op a
  proof -
    have v: "isValidFilterOperator op" using that(2) by (simp add: isValidFilterOperator_def)
    have "array_join '','' (filter truthy [JStr field, JStr (''n'' @ op), a])
            = field @ '','' @ (''n'' @ op) @ '','' @ ToString a"
      using that by (intro array_join_three) simp_all
    with e that entry_negated_operator [OF v, of field v] show ?thesis
      by simp
  qed
  have c3: "snd (ps ! i) = JStr (field @ '',is'')" if "key = field @ ''_is''" "field \<noteq> []" for field
    using e that entry_operator [OF is_valid, of field v] array_join_two [of field "''is''"]
    by (simp add: is_args)
  have c4: "snd (ps ! i) = JStr (field @ '',nis'')" if "key = field @ ''_nis''" "field \<noteq> []" for field
    using e that entry_negated_operator [OF is_valid, of field v] array_join_two [of field "''nis''"]
    by (simp add: is_args)
  have c5: "snd (ps ! i) = JStr (key @ '',eq,'' @ ToString v)"
    if "\<forall>field op. op \<in> set filterOperators \<longrightarrow>
         key \<noteq> field @ ''_'' @ op \<and> key \<noteq> field @ ''_n'' @ op"
    using e entry_other [of key v] key that by (simp add: isValidFilterOperator_def)
  have c0: "fst (ps ! i) = ''filter''"
    using entry_fst [OF e key] by (simp add: APIFilterParam_def)
  show ?thesis
    using len c0 c1 c2 c3 c4 c5 by blast
qed

text \<open>The theorem at the keys \<^verbatim>\<open>comment_ncs\<close>, \<^verbatim>\<open>comment_xy\<close> and \<^verbatim>\<open>comment_le\<close>.\<close>

theorem formatFilter_suffix_dispatch_witness:
  "formatFilter [(''comment_ncs'', JNum 4), (''comment_xy'', JNum 4), (''comment_le'', JStr ''a'')] =
     Inr [(''filter'', JStr ''comment,ncs,4''), (''filter'', JStr ''comment_xy,eq,4''),
          (''filter'', JStr ''comment,le,a'')] \<and>
   ''comment_ncs'' \<noteq> ''q'' \<and> ''comment_xy'' \<noteq> ''q'' \<and> ''comment_le'' \<noteq> ''q'' \<and>
   formatFilterArguments ''cs'' (JNum 4) = Inr (JNum 4) \<and> truthy (JNum 4) \<and>
   formatFilterArguments ''le'' (JStr ''a'') = Inr (JStr ''a'') \<and> truthy (JStr ''a'') \<and>
   snd ([(''filter'', JStr ''comment,ncs,4''), (''filter'', JStr ''comment_xy,eq,4''),
          (''filter'', JStr ''comment,le,a'')] ! 0) = JStr ''comment,ncs,4'' \<and>
   snd ([(''filter'', JStr ''comment,ncs,4''), (''filter'', JStr ''comment_xy,eq,4''),
          (''filter'', JStr ''comment,le,a'')] ! 1) = JStr ''comment_xy,eq,4'' \<and>
   snd ([(''filter'', JStr ''comment,ncs,4''), (''filter'', JStr ''comment_xy,eq,4''),
          (''filter'', JStr ''comment,le,a'')] ! 2) = JStr ''comment,le,a''"
proof -
  let ?f = "[(''comment_ncs'', JNum 4), (''comment_xy'', JNum 4), (''comment_le'', JStr ''a'')]"
  let ?ps = "[(''filter'', JStr ''comment,ncs,4''), (''filter'', JStr ''comment_xy,eq,4''),
              (''filter'', JStr ''comment,le,a'')]"
  have run: "formatFilter ?f = Inr ?ps" by (simp add: filter_eval)
  have a1: "formatFilterArguments ''cs'' (JNum 4) = Inr (JNum 4)"
    and a2: "formatFilterArguments ''le'' (JStr ''a'') = Inr (JStr ''a'')"
    by (simp_all add: formatFilterArguments_def)
  have other: "\<forall>field op. op \<in> set filterOperators \<longrightarrow>
      ''comment_xy'' \<noteq> field @ ''_'' @ op \<and> ''comment_xy'' \<noteq> field @ ''_n'' @ op"
  proof (intro allI impI)
    fix field op :: string
    assume "op \<in> set filterOperators"
    then have "op \<noteq> [] \<and> last op \<noteq> CHR ''y''" by (auto simp: filterOperators_def)
    then have "last (field @ ''_'' @ op) \<noteq> CHR ''y''" "last (field @ ''_n'' @ op) \<noteq> CHR ''y''"
      by simp_all
    moreover have "last ''comment_xy'' = CHR ''y''" by simp
    ultimately show "''comment_xy'' \<noteq> field @ ''_'' @ op \<and> ''comment_xy'' \<noteq> field @ ''_n'' @ op"
      by metis
  qed
  have p0: "0 < length ?f" "?f ! 0 = (''comment_ncs'', JNum 4)" "''comment_ncs'' \<noteq> ''q''"
    and p1: "1 < length ?f" "?f ! 1 = (''comment_xy'', JNum 4)" "''comment_xy'' \<noteq> ''q''"
    and p2: "2 < length ?f" "?f ! 2 = (''comment_le'', JStr ''a'')" "''comment_le'' \<noteq> ''q''"
    by simp_all
  have t0: "snd (?ps ! 0) = JStr (''comment'' @ '',n'' @ ''cs'' @ '','' @ ToString (JNum 4))"
  proof (rule formatFilter_suffix_dispatch [OF run p0, THEN conjunct2, THEN conjunct2,
        THEN conjunct2, THEN conjunct1, rule_format])
    show "''comment_ncs'' = ''comment'' @ ''_n'' @ ''cs'' \<and> ''cs'' \<in> set filterOperators \<and>
      ''comment'' \<noteq> [] \<and> formatFilterArguments ''cs'' (JNum 4) = Inr (JNum 4) \<and> truthy (JNum 4)"
      using a1 by (simp add: filterOperators_def)
  qed
  have t1: "snd (?ps ! 1) = JStr (''comment_xy'' @ '',eq,'' @ ToString (JNum 4))"
    by (rule formatFilter_suffix_dispatch [OF run p1, THEN conjunct2, THEN conjunct2,
        THEN conjunct2, THEN conjunct2, THEN conjunct2, THEN conjunct2, rule_format])
      (use other in blast)+
  have t2: "snd (?ps ! 2) = JStr (''comment'' @ '','' @ ''le'' @ '','' @ ToString (JStr ''a''))"
  proof (rule formatFilter_suffix_dispatch [OF run p2, THEN conjunct2, THEN conjunct2,
        THEN conjunct1, rule_format])
    show "''comment_le'' = ''comment'' @ ''_'' @ ''le'' \<and> ''le'' \<in> set filterOperators \<and>
      ''comment'' \<noteq> [] \<and> formatFilterArguments ''le'' (JStr ''a'') = Inr (JStr ''a'') \<and>
      truthy (JStr ''a'')"
      using a2 by (simp add: filterOperators_def)
  qed
  from run a1 a2 t0 t1 t2 show ?thesis by (simp add: show_int_def show_nat.simps digit_char_def)
qed

text \<open>Claim C1 as it is written promises a pair \<^verbatim>\<open><field>,<op>,<formatted value>\<close> for every
  entry with an operator suffix. The entry \<^verbatim>\<open>comment_bt: 4\<close> yields no pair, it throws; and
  the entry \<^verbatim>\<open>_eq: 4\<close>, whose key without its last three characters is empty, yields
  \<^verbatim>\<open>eq,4\<close> and not \<^verbatim>\<open>,eq,4\<close>.\<close>

theorem formatFilter_suffix_dispatch_counterexample:
  \<open>formatFilter [(''comment_bt'', JNum 4)] =
     Inl (TypeError ''Array expected as filter value for filter type "between" (bt)'') \<and>
   formatFilter [(''_eq'', JNum 4)] = Inr [(''filter'', JStr ''eq,4'')]\<close>
  by (simp add: filter_eval)

text \<open>
  Claim C3 says that the value component is present for every value, also for \<^verbatim>\<open>0\<close>,
  \<^verbatim>\<open>false\<close> and the empty string. The code filters the three components by truthiness,
  so these values are dropped: \<^verbatim>\<open>comment_eq: 0\<close> compiles to \<^verbatim>\<open>comment,eq\<close>, while the
  key without a suffix keeps the value, \<^verbatim>\<open>comment: 0\<close> compiling to \<^verbatim>\<open>comment,eq,0\<close>.
\<close>

theorem formatFilter_falsy_value_dropped:
  "formatFilter [(''comment_eq'', JNum 0)] = Inr [(''filter'', JStr ''comment,eq'')] \<and>
   formatFilter [(''comment_eq'', JBool False)] = Inr [(''filter'', JStr ''comment,eq'')] \<and>
   formatFilter [(''comment_eq'', JStr [])] = Inr [(''filter'', JStr ''comment,eq'')] \<and>
   formatFilter [(''comment'', JNum 0)] = Inr [(''filter'', JStr ''comment,eq,0'')]"
  by (simp add: filter_eval)

text \<open>
  Claim C4. The filter \<^verbatim>\<open>{ comment_bt: [4,8,16,32] }\<close> compiles to \<^verbatim>\<open>comment,bt,4,8\<close>; in
  general the elements of a \<^verbatim>\<open>bt\<close> array beyond the second do not change the result;
  and \<^verbatim>\<open>{ comment_is: v }\<close> compiles to \<^verbatim>\<open>comment,is\<close> for every value \<open>v\<close>.
\<close>

theorem formatFilter_between_and_is:
  "formatFilter [(''comment_bt'', JArr [JNum 4, JNum 8, JNum 16, JNum 32])] =
     Inr [(''filter'', JStr ''comment,bt,4,8'')] \<and>
   (\<forall>a b rest. formatFilter [(''comment_bt'', JArr (a # b # rest))] =
      formatFilter [(''comment_bt'', JArr [a, b])]) \<and>
   (\<forall>v. formatFilter [(''comment_is'', v)] = Inr [(''filter'', JStr ''comment,is'')])"
proof -
  have 1: "formatFilter [(''comment_bt'', JArr [JNum 4, JNum 8, JNum 16, JNum 32])] =
     Inr [(''filter'', JStr ''comment,bt,4,8'')]"
    by (simp add: filter_eval)
  have 2: "formatFilter [(''comment_bt'', JArr (a # b # rest))] =
      formatFilter [(''comment_bt'', JArr [a, b])]" for a b rest
    by (simp add: filter_eval)
  have 3: "formatFilter [(''comment_is'', v)] = Inr [(''filter'', JStr ''comment,is'')]" for v
    by (simp add: filter_eval)
  from 1 2 3 show ?thesis by blast
qed

text \<open>The theorem at a three-element array and at an array value for \<^verbatim>\<open>is\<close>.\<close>

theorem formatFilter_between_and_is_witness:
  "formatFilter [(''comment_bt'', JArr [JNum 1, JNum 2, JNum 3])] =
     formatFilter [(''comment_bt'', JArr [JNum 1, JNum 2])] \<and>
   formatFilter [(''comment_is'', JArr [JStr ''x''])] = Inr [(''filter'', JStr ''comment,is'')]"
  using formatFilter_between_and_is by blast

text \<open>
  Claim C5. The filter \<^verbatim>\<open>{ q: "Hello", title: "World" }\<close> compiles to the pairs
  \<^verbatim>\<open>(search, "Hello")\<close> and \<^verbatim>\<open>(filter, "title,eq,World")\<close>, in that order. In general the
  entry with the key \<^verbatim>\<open>q\<close> never throws and compiles to the pair \<^verbatim>\<open>(search, value)\<close> with
  the value as it is; and whenever \<open>formatFilter\<close> returns, it returns one pair per entry,
  the pair of an entry with the key \<^verbatim>\<open>q\<close> being \<^verbatim>\<open>(search, value)\<close>.
\<close>

theorem formatFilter_search_key:
  "formatFilter [(''q'', JStr ''Hello''), (''title'', JStr ''World'')] =
     Inr [(''search'', JStr ''Hello''), (''filter'', JStr ''title,eq,World'')] \<and>
   (\<forall>v. formatFilterEntry (''q'', v) = Inr (''search'', v)) \<and>
   (\<forall>f ps i v. formatFilter f = Inr ps \<and> i < length f \<and> f ! i = (''q'', v) \<longrightarrow>
      length ps = length f \<and> ps ! i = (''search'', v))"
proof -
  have 1: "formatFilter [(''q'', JStr ''Hello''), (''title'', JStr ''World'')] =
     Inr [(''search'', JStr ''Hello''), (''filter'', JStr ''title,eq,World'')]"
    by (simp add: filter_eval)
  have 2: "formatFilterEntry (''q'', v) = Inr (''search'', v)" for v
    using entry_search [of v] by (simp add: searchOperator_def APISearchParam_def)
  have 3: "length ps = length f \<and> ps ! i = (''search'', v)"
    if "formatFilter f = Inr ps" "i < length f" "f ! i = (''q'', v)" for f ps i v
    using formatFilter_Inr_nth [OF that(1)] that(2,3) 2 [of v] by auto
  from 1 2 3 show ?thesis by blast
qed

text \<open>The theorem at a filter whose second entry is the search key.\<close>

theorem formatFilter_search_key_witness:
  "formatFilter [(''title'', JStr ''World''), (''q'', JNum 0)] =
     Inr [(''filter'', JStr ''title,eq,World''), (''search'', JNum 0)] \<and>
   (1::nat) < length [(''title'', JStr ''World''), (''q'', JNum 0)] \<and>
   [(''title'', JStr ''World''), (''q'', JNum 0)] ! 1 = (''q'', JNum 0) \<and>
   [(''filter'', JStr ''title,eq,World''), (''search'', JNum 0)] ! 1 = (''search'', JNum 0)"
proof -
  have run: "formatFilter [(''title'', JStr ''World''), (''q'', JNum 0)] =
     Inr [(''filter'', JStr ''title,eq,World''), (''search'', JNum 0)]"
    by (simp add: filter_eval)
  have "\<forall>f ps i v. formatFilter f = Inr ps \<and> i < length f \<and> f ! i = (''q'', v) \<longrightarrow>
      length ps = length f \<and> ps ! i = (''search'', v)"
    using formatFilter_search_key by blast
  from this [rule_format, of "[(''title'', JStr ''World''), (''q'', JNum 0)]"
      "[(''filter'', JStr ''title,eq,World''), (''search'', JNum 0)]" 1 "JNum 0"] run
  show ?thesis by simp
qed

text \<open>
  Claim C2, as the code has it. Take the first entry of the filter object whose key
  ends in \<^verbatim>\<open>_bt\<close>, \<^verbatim>\<open>_nbt\<close>, \<^verbatim>\<open>_in\<close> or \<^verbatim>\<open>_nin\<close> and whose value is not an array (every
  entry before it with such a key has an array value). When its key ends in \<^verbatim>\<open>_bt\<close> or
  \<^verbatim>\<open>_nbt\<close>, \<open>formatFilter\<close> throws the \<^verbatim>\<open>TypeError\<close> with the message of \<^verbatim>\<open>between\<close>; when it
  ends in \<^verbatim>\<open>_in\<close> or \<^verbatim>\<open>_nin\<close>, the one with the message of \<^verbatim>\<open>in\<close>. \<open>getList\<close> with this
  filter, and \<open>getManyReference\<close> when this is the filter merged with the target entry,
  fail with the same error and issue no request. So a filter object that has such an
  entry anywhere makes \<open>formatFilter\<close> and \<open>getList\<close> fail with one of the two messages,
  with no request issued, and so does \<open>getManyReference\<close> (an object has distinct keys).
\<close>

theorem formatFilter_array_type_error:
  assumes "\<forall>e \<in> set pre. \<forall>field.
      (fst e = field @ ''_bt'' \<or> fst e = field @ ''_nbt'' \<or>
       fst e = field @ ''_in'' \<or> fst e = field @ ''_nin'') \<longrightarrow> (\<exists>xs. snd e = JArr xs)"
    and "\<forall>xs. v \<noteq> JArr xs"
  shows \<open>((\<exists>field. key = field @ ''_bt'' \<or> key = field @ ''_nbt'') \<longrightarrow>
      formatFilter (pre @ (key, v) # post) = Inl (TypeError
            ''Array expected as filter value for filter type "between" (bt)'') \<and>
      (\<forall>this resource params. gl_filter params = Some (pre @ (key, v) # post) \<longrightarrow>
         getList this resource params = ([], Inl (TypeError
               ''Array expected as filter value for filter type "between" (bt)''))) \<and>
      (\<forall>this resource params.
         obj_set (mr_target params) (id_value (mr_id params)) (obj_spread [] (mr_filter params)) =
           pre @ (key, v) # post \<longrightarrow>
         getManyReference this resource params = ([], Inl (TypeError
               ''Array expected as filter value for filter type "between" (bt)'')))) \<and>
    ((\<exists>field. key = field @ ''_in'' \<or> key = field @ ''_nin'') \<longrightarrow>
      formatFilter (pre @ (key, v) # post) = Inl (TypeError
            ''Array expected as filter value for filter type "in"'') \<and>
      (\<forall>this resource params. gl_filter params = Some (pre @ (key, v) # post) \<longrightarrow>
         getList this resource params = ([], Inl (TypeError
               ''Array expected as filter value for filter type "in"''))) \<and>
      (\<forall>this resource params.
         obj_set (mr_target params) (id_value (mr_id params)) (obj_spread [] (mr_filter params)) =
           pre @ (key, v) # post \<longrightarrow>
         getManyReference this resource params = ([], Inl (TypeError
               ''Array expected as filter value for filter type "in"'')))) \<and>
    ((\<exists>field. key = field @ ''_bt'' \<or> key = field @ ''_nbt'' \<or>
               key = field @ ''_in'' \<or> key = field @ ''_nin'') \<longrightarrow>
      (\<forall>f. (key, v) \<in> set f \<longrightarrow>
         (\<exists>m. (m =
               ''Array expected as filter value for filter type "between" (bt)'' \<or>
             m =
               ''Array expected as filter value for filter type "in"'') \<and>
             formatFilter f = Inl (TypeError m) \<and>
              (\<forall>this resource params. gl_filter params = Some f \<longrightarrow>
                 getList this resource params = ([], Inl (TypeError m))))) \<and>
      (\<forall>this resource params f.
         mr_filter params = Some f \<and> distinct (map fst f) \<and> (key, v) \<in> set f \<longrightarrow>
         (\<exists>m. (m =
               ''Array expected as filter value for filter type "between" (bt)'' \<or>
             m =
               ''Array expected as filter value for filter type "in"'') \<and>
              getManyReference this resource params = ([], Inl (TypeError m)))))\<close>
proof -
  have pre: "\<forall>e \<in> set pre. \<exists>p. formatFilterEntry e = Inr p"
  proof
    fix e assume e: "e \<in> set pre"
    show "\<exists>p. formatFilterEntry e = Inr p"
    proof (cases "formatFilterEntry e")
      case (Inl err)
      then have "formatFilterEntry (fst e, snd e) = Inl err" by simp
      from entry_error_offender [OF this] assms(1) e show ?thesis by blast
    next
      case (Inr p)
      then show ?thesis by blast
    qed
  qed
  have first: "formatFilter (pre @ (key, v) # post) = Inl err \<and>
      (\<forall>this resource params. gl_filter params = Some (pre @ (key, v) # post) \<longrightarrow>
         getList this resource params = ([], Inl err)) \<and>
      (\<forall>this resource params.
         obj_set (mr_target params) (id_value (mr_id params)) (obj_spread [] (mr_filter params)) =
           pre @ (key, v) # post \<longrightarrow>
         getManyReference this resource params = ([], Inl err))"
    if "formatFilterEntry (key, v) = Inl err" for err
  proof -
    have f: "formatFilter (pre @ (key, v) # post) = Inl err"
      by (rule formatFilter_first_error [OF pre that])
    show ?thesis
      using f getList_filter_error getManyReference_filter_error by (metis (no_types))
  qed
  have any: \<open>\<exists>m. (m =
        ''Array expected as filter value for filter type "between" (bt)'' \<or>
      m =
        ''Array expected as filter value for filter type "in"'') \<and>
      formatFilter f = Inl (TypeError m)\<close>
    if mem: "(k, w) \<in> set f" and fails: "formatFilterEntry (k, w) = Inl x" for f k w x
  proof -
    obtain err where err: "formatFilter f = Inl err"
      using formatFilter_failing_entry [OF mem fails] by blast
    from formatFilter_error_kinds [OF err] err show ?thesis by auto
  qed
  have bt: \<open>formatFilterEntry (key, v) = Inl (TypeError
        ''Array expected as filter value for filter type "between" (bt)'')\<close>
    if "\<exists>field. key = field @ ''_bt'' \<or> key = field @ ''_nbt''"
    using that entry_not_array(1,2) [OF assms(2)] by auto
  have inn: \<open>formatFilterEntry (key, v) = Inl (TypeError
        ''Array expected as filter value for filter type "in"'')\<close>
    if "\<exists>field. key = field @ ''_in'' \<or> key = field @ ''_nin''"
    using that entry_not_array(3,4) [OF assms(2)] by auto
  have c1: \<open>(\<exists>field. key = field @ ''_bt'' \<or> key = field @ ''_nbt'') \<longrightarrow>
      formatFilter (pre @ (key, v) # post) = Inl (TypeError
            ''Array expected as filter value for filter type "between" (bt)'') \<and>
      (\<forall>this resource params. gl_filter params = Some (pre @ (key, v) # post) \<longrightarrow>
         getList this resource params = ([], Inl (TypeError
               ''Array expected as filter value for filter type "between" (bt)''))) \<and>
      (\<forall>this resource params.
         obj_set (mr_target params) (id_value (mr_id params)) (obj_spread [] (mr_filter params)) =
           pre @ (key, v) # post \<longrightarrow>
         getManyReference this resource params = ([], Inl (TypeError
               ''Array expected as filter value for filter type "between" (bt)'')))\<close>
    using first [OF bt] by blast
  have c2: \<open>(\<exists>field. key = field @ ''_in'' \<or> key = field @ ''_nin'') \<longrightarrow>
      formatFilter (pre @ (key, v) # post) = Inl (TypeError
            ''Array expected as filter value for filter type "in"'') \<and>
      (\<forall>this resource params. gl_filter params = Some (pre @ (key, v) # post) \<longrightarrow>
         getList this resource params = ([], Inl (TypeError
               ''Array expected as filter value for filter type "in"''))) \<and>
      (\<forall>this resource params.
         obj_set (mr_target params) (id_value (mr_id params)) (obj_spread [] (mr_filter params)) =
           pre @ (key, v) # post \<longrightarrow>
         getManyReference this resource params = ([], Inl (TypeError
               ''Array expected as filter value for filter type "in"'')))\<close>
    using first [OF inn] by blast
  have c3: \<open>(\<forall>f. (key, v) \<in> set f \<longrightarrow>
         (\<exists>m. (m =
               ''Array expected as filter value for filter type "between" (bt)'' \<or>
             m =
               ''Array expected as filter value for filter type "in"'') \<and>
             formatFilter f = Inl (TypeError m) \<and>
              (\<forall>this resource params. gl_filter params = Some f \<longrightarrow>
                 getList this resource params = ([], Inl (TypeError m))))) \<and>
      (\<forall>this resource params f.
         mr_filter params = Some f \<and> distinct (map fst f) \<and> (key, v) \<in> set f \<longrightarrow>
         (\<exists>m. (m =
               ''Array expected as filter value for filter type "between" (bt)'' \<or>
             m =
               ''Array expected as filter value for filter type "in"'') \<and>
              getManyReference this resource params = ([], Inl (TypeError m))))\<close>
    if k: "\<exists>field. key = field @ ''_bt'' \<or> key = field @ ''_nbt'' \<or>
               key = field @ ''_in'' \<or> key = field @ ''_nin''"
  proof (intro conjI allI impI)
    from k bt inn obtain x where x: "formatFilterEntry (key, v) = Inl x" by blast
    {
      fix f :: object assume "(key, v) \<in> set f"
      from any [OF this x] obtain m where m: \<open>m = ''Array expected as filter value for filter type "between" (bt)'' \<or>
          m =
            ''Array expected as filter value for filter type "in"''\<close>
        and f: "formatFilter f = Inl (TypeError m)" by blast
      from m f getList_filter_error [OF _ f]
      show \<open>\<exists>m. (m =
            ''Array expected as filter value for filter type "between" (bt)'' \<or>
          m =
            ''Array expected as filter value for filter type "in"'') \<and>
          formatFilter f = Inl (TypeError m) \<and>
              (\<forall>this resource params. gl_filter params = Some f \<longrightarrow>
                 getList this resource params = ([], Inl (TypeError m)))\<close>
        by blast
    }
    {
      fix this :: TreeQLDataProvider and resource :: string
        and params :: GetManyReferenceParams and f :: object
      assume a: "mr_filter params = Some f \<and> distinct (map fst f) \<and> (key, v) \<in> set f"
      let ?idv = "id_value (mr_id params)"
      let ?g = "obj_set (mr_target params) ?idv (obj_spread [] (mr_filter params))"
      have copy: "obj_spread [] (mr_filter params) = f"
        using a obj_spread_copy by simp
      have idv: "\<forall>xs. ?idv \<noteq> JArr xs" by (cases "mr_id params") simp_all
      have \<open>\<exists>m. (m =
            ''Array expected as filter value for filter type "between" (bt)'' \<or>
          m =
            ''Array expected as filter value for filter type "in"'') \<and> formatFilter ?g = Inl (TypeError m)\<close>
      proof (cases "key = mr_target params")
        case True
        from k entry_not_array [OF idv] obtain y where
          "formatFilterEntry (key, ?idv) = Inl y" by blast
        moreover have "(key, ?idv) \<in> set ?g" using True obj_set_same by simp
        ultimately show ?thesis using any by blast
      next
        case False
        then have "(key, v) \<in> set ?g" using a copy obj_set_other by simp
        with x show ?thesis using any by blast
      qed
      then obtain m where m: \<open>m = ''Array expected as filter value for filter type "between" (bt)'' \<or>
          m =
            ''Array expected as filter value for filter type "in"''\<close>
        and g: "formatFilter ?g = Inl (TypeError m)" by blast
      from m getManyReference_filter_error [OF g]
      show \<open>\<exists>m. (m =
            ''Array expected as filter value for filter type "between" (bt)'' \<or>
          m =
            ''Array expected as filter value for filter type "in"'') \<and>
              getManyReference this resource params = ([], Inl (TypeError m))\<close>
        by blast
    }
  qed
  from c1 c2 c3 show ?thesis by blast
qed

text \<open>The theorem at a filter whose second entry has the key \<^verbatim>\<open>b_nbt\<close> and the value
  \<^verbatim>\<open>4\<close>, after an entry \<^verbatim>\<open>a_in\<close> with an array.\<close>

theorem formatFilter_array_type_error_witness:
  \<open>(\<forall>xs. JNum 4 \<noteq> JArr xs) \<and>
   formatFilter [(''a_in'', JArr [JNum 1]), (''b_nbt'', JNum 4), (''c_in'', JNum 4)] =
     Inl (TypeError ''Array expected as filter value for filter type "between" (bt)'') \<and>
   getList (new_TreeQLDataProvider ''http://myApi.com/'' (\<lambda>r. Inr JNull)) ''comment''
      \<lparr>gl_page = 1, gl_perPage = 10, gl_field = ''title'', gl_order = ''ASC'',
       gl_filter = Some [(''a_in'', JArr [JNum 1]), (''b_nbt'', JNum 4), (''c_in'', JNum 4)],
       gl_meta = None\<rparr> = ([], Inl (TypeError
             ''Array expected as filter value for filter type "between" (bt)''))\<close>
proof -
  have h1: "\<forall>e \<in> set [(''a_in'', JArr [JNum 1])]. \<forall>field.
      (fst e = field @ ''_bt'' \<or> fst e = field @ ''_nbt'' \<or>
       fst e = field @ ''_in'' \<or> fst e = field @ ''_nin'') \<longrightarrow> (\<exists>xs. snd e = JArr xs)"
    by simp
  have h2: "\<forall>xs. JNum 4 \<noteq> JArr xs" by simp
  have k: "\<exists>field. ''b_nbt'' = field @ ''_bt'' \<or> ''b_nbt'' = field @ ''_nbt''"
    by (rule exI [of _ "''b''"]) simp
  note T = formatFilter_array_type_error [OF h1 h2, of "''b_nbt''" "[(''c_in'', JNum 4)]",
      THEN conjunct1, rule_format, OF k]
  from T [THEN conjunct1]
  have 1: \<open>formatFilter [(''a_in'', JArr [JNum 1]), (''b_nbt'', JNum 4), (''c_in'', JNum 4)] =
     Inl (TypeError ''Array expected as filter value for filter type "between" (bt)'')\<close>
    by simp
  from T [THEN conjunct2, THEN conjunct1, rule_format,
      of "\<lparr>gl_page = 1, gl_perPage = 10, gl_field = ''title'', gl_order = ''ASC'',
       gl_filter = Some [(''a_in'', JArr [JNum 1]), (''b_nbt'', JNum 4), (''c_in'', JNum 4)],
       gl_meta = None\<rparr>" "new_TreeQLDataProvider ''http://myApi.com/'' (\<lambda>r. Inr JNull)" "''comment''"]
  have 2: \<open>getList (new_TreeQLDataProvider ''http://myApi.com/'' (\<lambda>r. Inr JNull)) ''comment''
      \<lparr>gl_page = 1, gl_perPage = 10, gl_field = ''title'', gl_order = ''ASC'',
       gl_filter = Some [(''a_in'', JArr [JNum 1]), (''b_nbt'', JNum 4), (''c_in'', JNum 4)],
       gl_meta = None\<rparr> = ([], Inl (TypeError
             ''Array expected as filter value for filter type "between" (bt)''))\<close>
    by simp
  from h2 1 2 show ?thesis by blast
qed

text \<open>Claim C2 as it is written gives the message of \<^verbatim>\<open>between\<close> to every filter object
  that has a key ending in \<^verbatim>\<open>_bt\<close> with a value that is not an array. In
  \<^verbatim>\<open>{ a_in: 4, b_bt: 4 }\<close> the entry \<^verbatim>\<open>a_in\<close> comes first and the message is that of \<^verbatim>\<open>in\<close>.\<close>

theorem formatFilter_array_type_error_counterexample:
  \<open>formatFilter [(''a_in'', JNum 4), (''b_bt'', JNum 4)] = Inl (TypeError
        ''Array expected as filter value for filter type "in"'') \<and>
   formatFilter [(''a_in'', JNum 4), (''b_bt'', JNum 4)] \<noteq> Inl (TypeError
         ''Array expected as filter value for filter type "between" (bt)'')\<close>
  by (simp add: filter_eval)

section \<open>Claims about the resource client\<close>

text \<open>
  Claim C10. Let \<open>q\<close> be the query string of the metadata (empty when there is no
  metadata). For a call that supplies the single identifier \<open>i\<close>, \<open>getURL\<close> returns
  \<^verbatim>\<open><base>/records/<resource>\<close>, followed by \<^verbatim>\<open>/<id>\<close> unless the identifier is \<^verbatim>\<open>0\<close> or the
  empty string, followed by \<open>q\<close>: for these two identifiers the segment is left out and
  the URL is that of the collection, the one \<open>getURL\<close> returns without an identifier.
  \<open>getOne\<close>, \<open>update\<close> and \<open>delete\<close> issue their request to this URL.
\<close>

theorem getURL_falsy_id_omits_segment:
  "\<exists>q. formatParams \<lparr>p_order = None, p_page = None, p_filter = None, p_meta = meta,
          p_id = None, p_ids = None\<rparr> = Inr q \<and>
        (meta = None \<longrightarrow> q = []) \<and>
        getURL this resource \<lparr>p_order = None, p_page = None, p_filter = None, p_meta = meta,
          p_id = None, p_ids = None\<rparr> = Inr (apiUrl this @ ''/records/'' @ resource @ q) \<and>
        getURL this resource \<lparr>p_order = None, p_page = None, p_filter = None, p_meta = meta,
          p_id = Some i, p_ids = None\<rparr> =
          Inr (apiUrl this @ ''/records/'' @ resource @
               (if i = IdNum 0 \<or> i = IdStr [] then [] else ''/'' @ ToString (id_value i)) @ q) \<and>
        map url (fst (getOne this resource \<lparr>go_id = i, go_meta = meta\<rparr>)) =
          [apiUrl this @ ''/records/'' @ resource @
             (if i = IdNum 0 \<or> i = IdStr [] then [] else ''/'' @ ToString (id_value i)) @ q] \<and>
        map url (fst (update this resource
            \<lparr>up_id = i, up_data = d, up_previousData = prev, up_meta = meta\<rparr>)) =
          [apiUrl this @ ''/records/'' @ resource @
             (if i = IdNum 0 \<or> i = IdStr [] then [] else ''/'' @ ToString (id_value i)) @ q] \<and>
        map url (fst (delete this resource
            \<lparr>de_id = i, de_previousData = prev, de_meta = meta\<rparr>)) =
          [apiUrl this @ ''/records/'' @ resource @
             (if i = IdNum 0 \<or> i = IdStr [] then [] else ''/'' @ ToString (id_value i)) @ q]"
proof -
  obtain q where q: "formatParams \<lparr>p_order = None, p_page = None, p_filter = None, p_meta = meta,
          p_id = None, p_ids = None\<rparr> = Inr q" and e: "meta = None \<longrightarrow> q = []"
    using formatParams_meta_only by blast
  let ?u = "apiUrl this @ ''/records/'' @ resource @
             (if i = IdNum 0 \<or> i = IdStr [] then [] else ''/'' @ ToString (id_value i)) @ q"
  have u: "getURL this resource \<lparr>p_order = None, p_page = None, p_filter = None, p_meta = meta,
          p_id = Some i, p_ids = None\<rparr> = Inr ?u"
    by (rule getURL_single_id [OF q])
  have c: "getURL this resource \<lparr>p_order = None, p_page = None, p_filter = None, p_meta = meta,
          p_id = None, p_ids = None\<rparr> = Inr (apiUrl this @ ''/records/'' @ resource @ q)"
    by (rule getURL_no_id [OF q])
  have "fst (getOne this resource \<lparr>go_id = i, go_meta = meta\<rparr>) = [\<lparr>url = ?u, options = None\<rparr>]"
    by (rule getOne_requests) (simp add: u)
  then have 1: "map url (fst (getOne this resource \<lparr>go_id = i, go_meta = meta\<rparr>)) = [?u]"
    by simp
  have "fst (update this resource
            \<lparr>up_id = i, up_data = d, up_previousData = prev, up_meta = meta\<rparr>) =
          [\<lparr>url = ?u, options = Some \<lparr>http_method = ''PUT'',
               body = Some (JSON_stringify (JObj d))\<rparr>\<rparr>]"
    using update_requests [of this resource
        "\<lparr>up_id = i, up_data = d, up_previousData = prev, up_meta = meta\<rparr>" ?u] u
    by simp
  then have 2: "map url (fst (update this resource
            \<lparr>up_id = i, up_data = d, up_previousData = prev, up_meta = meta\<rparr>)) = [?u]"
    by simp
  have "fst (delete this resource \<lparr>de_id = i, de_previousData = prev, de_meta = meta\<rparr>) =
          [\<lparr>url = ?u, options = Some \<lparr>http_method = ''DELETE'', body = None\<rparr>\<rparr>]"
    using delete_requests [of this resource
        "\<lparr>de_id = i, de_previousData = prev, de_meta = meta\<rparr>" ?u] u
    by simp
  then have 3: "map url (fst (delete this resource
            \<lparr>de_id = i, de_previousData = prev, de_meta = meta\<rparr>)) = [?u]"
    by simp
  show ?thesis
    by (rule exI [of _ q]) (intro conjI q e c u 1 2 3)
qed


text \<open>The theorem for \<open>getOne\<close> without metadata, at the identifiers \<^verbatim>\<open>0\<close> and \<^verbatim>\<open>"1"\<close>.\<close>

theorem getURL_falsy_id_omits_segment_witness:
  "map url (fst (getOne (new_TreeQLDataProvider ''http://myApi.com/'' (\<lambda>r. Inr JNull)) ''comment''
      \<lparr>go_id = IdNum 0, go_meta = None\<rparr>)) = [''http://myApi.com/records/comment''] \<and>
   map url (fst (getOne (new_TreeQLDataProvider ''http://myApi.com/'' (\<lambda>r. Inr JNull)) ''comment''
      \<lparr>go_id = IdStr ''1'', go_meta = None\<rparr>)) = [''http://myApi.com/records/comment/1'']"
proof -
  let ?dp = "new_TreeQLDataProvider ''http://myApi.com/'' (\<lambda>r. Inr JNull)"
  have a: "apiUrl ?dp = ''http://myApi.com''"
    using apiUrl_trailing_slash [of "''http://myApi.com''"] by simp
  obtain q where q: "None = (None :: object option) \<longrightarrow> q = []"
    and g: "map url (fst (getOne ?dp ''comment'' \<lparr>go_id = IdNum 0, go_meta = None\<rparr>)) =
      [apiUrl ?dp @ ''/records/'' @ ''comment'' @
         (if IdNum 0 = IdNum 0 \<or> IdNum 0 = IdStr [] then [] else ''/'' @ ToString (id_value (IdNum 0))) @ q]"
    using getURL_falsy_id_omits_segment [of None ?dp "''comment''" "IdNum 0"] by blast
  from q have "q = []" by simp
  with g have 1: "map url (fst (getOne ?dp ''comment'' \<lparr>go_id = IdNum 0, go_meta = None\<rparr>)) =
      [''http://myApi.com/records/comment'']"
    by (simp only: a) simp
  obtain r where r: "None = (None :: object option) \<longrightarrow> r = []"
    and h: "map url (fst (getOne ?dp ''comment'' \<lparr>go_id = IdStr ''1'', go_meta = None\<rparr>)) =
      [apiUrl ?dp @ ''/records/'' @ ''comment'' @
         (if IdStr ''1'' = IdNum 0 \<or> IdStr ''1'' = IdStr [] then []
          else ''/'' @ ToString (id_value (IdStr ''1''))) @ r]"
    using getURL_falsy_id_omits_segment [of None ?dp "''comment''" "IdStr ''1''"] by blast
  from r have "r = []" by simp
  with h have 2: "map url (fst (getOne ?dp ''comment'' \<lparr>go_id = IdStr ''1'', go_meta = None\<rparr>)) =
      [''http://myApi.com/records/comment/1'']"
    by (simp only: a) simp
  from 1 2 show ?thesis by (rule conjI)
qed

text \<open>
  Claim C7. For the parameters \<^verbatim>\<open>order: "length,DESC"\<close>, \<^verbatim>\<open>page: "1,25"\<close> and the filter
  \<^verbatim>\<open>{ id: 4 }\<close>, \<open>getURL\<close> returns
  \<^verbatim>\<open><apiUrl>/records/comment?order=length,DESC&page=1,25&filter=id,eq,4\<close> for the resource
  \<^verbatim>\<open>comment\<close> (with the base URL of the tests and with any other), and \<open>getList\<close> with the
  sort \<^verbatim>\<open>{ field: "length", order: "DESC" }\<close> and the pagination
  \<^verbatim>\<open>{ page: 1, perPage: 25 }\<close> issues its request to this URL. In general decoding the
  serialized pairs gives back every character of every key and value, the comma
  included; only a space is left as the \<^verbatim>\<open>+\<close> the serializer wrote for it. So the query
  string, when the filter compiles, is \<^verbatim>\<open>?\<close> and the pairs \<^verbatim>\<open>key=value\<close> joined with \<^verbatim>\<open>&\<close>:
  those of order and page, the compiled filter pairs and the metadata pairs whose key
  is not \<^verbatim>\<open>order\<close>, \<^verbatim>\<open>page\<close> or \<^verbatim>\<open>filter\<close>; and it is empty when there is no pair.
\<close>

theorem getURL_list_query:
  "getURL (new_TreeQLDataProvider ''http://myApi.com/'' client) ''comment''
      \<lparr>p_order = Some ''length,DESC'', p_page = Some ''1,25'',
       p_filter = Some [(''id'', JNum 4)], p_meta = None, p_id = None, p_ids = None\<rparr> =
     Inr ''http://myApi.com/records/comment?order=length,DESC&page=1,25&filter=id,eq,4'' \<and>
   (\<forall>api. getURL (new_TreeQLDataProvider api client) ''comment''
      \<lparr>p_order = Some ''length,DESC'', p_page = Some ''1,25'',
       p_filter = Some [(''id'', JNum 4)], p_meta = None, p_id = None, p_ids = None\<rparr> =
     Inr (apiUrl (new_TreeQLDataProvider api client) @
          ''/records/comment?order=length,DESC&page=1,25&filter=id,eq,4'')) \<and>
   (\<forall>api. fst (getList (new_TreeQLDataProvider api client) ''comment''
      \<lparr>gl_page = 1, gl_perPage = 25, gl_field = ''length'', gl_order = ''DESC'',
       gl_filter = Some [(''id'', JNum 4)], gl_meta = None\<rparr>) =
     [\<lparr>url = apiUrl (new_TreeQLDataProvider api client) @
              ''/records/comment?order=length,DESC&page=1,25&filter=id,eq,4'',
       options = None\<rparr>]) \<and>
   (\<forall>ps. decodeURIComponent (URLSearchParams_toString ps) =
      Inr (str_join ''&''
        (map (\<lambda>p. map (\<lambda>c. if c = CHR '' '' then CHR ''+'' else c) (fst p) @ ''='' @
                   map (\<lambda>c. if c = CHR '' '' then CHR ''+'' else c) (snd p)) ps))) \<and>
   (\<forall>params pairs.
      (case p_filter params of None \<Rightarrow> Inr [] | Some f \<Rightarrow> formatFilter f) = Inr pairs \<longrightarrow>
      formatParams params =
        Inr (let ps = rest_entries params @
                      map (\<lambda>p. (fst p, ToString (snd p))) pairs @
                      map (\<lambda>p. (fst p, ToString (snd p)))
                        (filter (\<lambda>p. fst p \<notin> set [''order'', ''page'', ''filter''])
                          (case p_meta params of None \<Rightarrow> [] | Some m \<Rightarrow> m))
             in if ps = [] then []
                else ''?'' @ str_join ''&''
                  (map (\<lambda>p. map (\<lambda>c. if c = CHR '' '' then CHR ''+'' else c) (fst p) @ ''='' @
                             map (\<lambda>c. if c = CHR '' '' then CHR ''+'' else c) (snd p)) ps)))"
proof -
  have g: "getURL (new_TreeQLDataProvider api client) ''comment''
      \<lparr>p_order = Some ''length,DESC'', p_page = Some ''1,25'',
       p_filter = Some [(''id'', JNum 4)], p_meta = None, p_id = None, p_ids = None\<rparr> =
     Inr (apiUrl (new_TreeQLDataProvider api client) @
          ''/records/comment?order=length,DESC&page=1,25&filter=id,eq,4'')" for api
    by (simp add: url_eval filter_eval)
  have a: "apiUrl (new_TreeQLDataProvider ''http://myApi.com/'' client) = ''http://myApi.com''"
    using apiUrl_trailing_slash [of "''http://myApi.com''"] by simp
  have 1: "getURL (new_TreeQLDataProvider ''http://myApi.com/'' client) ''comment''
      \<lparr>p_order = Some ''length,DESC'', p_page = Some ''1,25'',
       p_filter = Some [(''id'', JNum 4)], p_meta = None, p_id = None, p_ids = None\<rparr> =
     Inr ''http://myApi.com/records/comment?order=length,DESC&page=1,25&filter=id,eq,4''"
    using g [of "''http://myApi.com/''"] by (simp only: a) simp
  have 3: "fst (getList (new_TreeQLDataProvider api client) ''comment''
      \<lparr>gl_page = 1, gl_perPage = 25, gl_field = ''length'', gl_order = ''DESC'',
       gl_filter = Some [(''id'', JNum 4)], gl_meta = None\<rparr>) =
     [\<lparr>url = apiUrl (new_TreeQLDataProvider api client) @
              ''/records/comment?order=length,DESC&page=1,25&filter=id,eq,4'',
       options = None\<rparr>]" for api
    unfolding getList_def
    by (simp add: show_int_def show_nat.simps digit_char_def g Let_def split: sum.split)
  show ?thesis
    using 1 g 3 decode_URLSearchParams formatParams_Inr by blast
qed

text \<open>The theorem at a parameter bag with a space in a filter value and one metadata pair.\<close>

theorem getURL_list_query_witness:
  "(case p_filter \<lparr>p_order = Some ''title,ASC'', p_page = Some ''1,10'',
       p_filter = Some [(''title_cs'', JStr ''a b'')], p_meta = Some [(''join'', JStr ''posts'')],
       p_id = None, p_ids = None\<rparr> of None \<Rightarrow> Inr [] | Some f \<Rightarrow> formatFilter f) =
     Inr [(''filter'', JStr ''title,cs,a b'')] \<and>
   formatParams \<lparr>p_order = Some ''title,ASC'', p_page = Some ''1,10'',
       p_filter = Some [(''title_cs'', JStr ''a b'')], p_meta = Some [(''join'', JStr ''posts'')],
       p_id = None, p_ids = None\<rparr> =
     Inr ''?order=title,ASC&page=1,10&filter=title,cs,a+b&join=posts''"
proof -
  let ?p = "\<lparr>p_order = Some ''title,ASC'', p_page = Some ''1,10'',
       p_filter = Some [(''title_cs'', JStr ''a b'')], p_meta = Some [(''join'', JStr ''posts'')],
       p_id = None, p_ids = None\<rparr>"
  have h: "(case p_filter ?p of None \<Rightarrow> Inr [] | Some f \<Rightarrow> formatFilter f) =
     Inr [(''filter'', JStr ''title,cs,a b'')]"
    by (simp add: filter_eval)
  from getURL_list_query [of "\<lambda>r. Inr JNull", THEN conjunct2, THEN conjunct2, THEN conjunct2,
      THEN conjunct2, rule_format, OF h]
  have "formatParams ?p = Inr ''?order=title,ASC&page=1,10&filter=title,cs,a+b&join=posts''"
    by (simp add: rest_entries_def Let_def)
  with h show ?thesis by (rule conjI)
qed

text \<open>
  Claim C8 says that every \<open>update\<close> issues its PUT to \<^verbatim>\<open><base>/records/<resource>/<id>\<close>.
  With the identifier \<^verbatim>\<open>0\<close> the code leaves the segment out (the test in \<open>getURL\<close> is for
  a truthy identifier), and the PUT goes to the URL of the collection; with the
  identifier \<^verbatim>\<open>1\<close> it goes to the URL of the record.
\<close>

theorem update_falsy_id_targets_collection:
  "update (new_TreeQLDataProvider ''http://myApi.com/'' (\<lambda>r. Inr JNull)) ''comment''
      \<lparr>up_id = IdNum 0, up_data = [(''title'', JStr ''New Title'')],
       up_previousData = None, up_meta = None\<rparr> =
     ([\<lparr>url = ''http://myApi.com/records/comment'',
        options = Some \<lparr>http_method = ''PUT'',
          body = Some (JSON_stringify (JObj [(''title'', JStr ''New Title'')]))\<rparr>\<rparr>],
      Inr [(''id'', JNum 0), (''title'', JStr ''New Title'')]) \<and>
   update (new_TreeQLDataProvider ''http://myApi.com/'' (\<lambda>r. Inr JNull)) ''comment''
      \<lparr>up_id = IdNum 1, up_data = [(''title'', JStr ''New Title'')],
       up_previousData = None, up_meta = None\<rparr> =
     ([\<lparr>url = ''http://myApi.com/records/comment/1'',
        options = Some \<lparr>http_method = ''PUT'',
          body = Some (JSON_stringify (JObj [(''title'', JStr ''New Title'')]))\<rparr>\<rparr>],
      Inr [(''id'', JNum 1), (''title'', JStr ''New Title'')])"
proof -
  have a: "apiUrl (new_TreeQLDataProvider ''http://myApi.com/'' (\<lambda>r. Inr JNull)) = ''http://myApi.com''"
    using apiUrl_trailing_slash [of "''http://myApi.com''"] by simp
  show ?thesis
    unfolding update_def
    by (simp add: url_eval a httpClient_new Let_def show_int_def show_nat.simps digit_char_def)
qed

text \<open>
  Claim C9. \<open>update\<close> and \<open>delete\<close> issue one request; when the client answers it,
  \<open>update\<close> returns \<^verbatim>\<open>{ id, ...previousData, ...data }\<close> and \<open>delete\<close> returns
  \<^verbatim>\<open>{ id, ...previousData }\<close>, which without \<^verbatim>\<open>previousData\<close> are \<^verbatim>\<open>{ id, ...data }\<close> and
  \<^verbatim>\<open>{ id }\<close>.
\<close>

theorem update_delete_result_shape:
  "(\<exists>req. fst (update this resource params) = [req] \<and>
      (\<forall>json. httpClient this req = Inr json \<longrightarrow>
         snd (update this resource params) =
           Inr (obj_spread
                  (obj_spread [(''id'', id_value (up_id params))] (up_previousData params))
                  (Some (up_data params))) \<and>
         (up_previousData params = None \<longrightarrow>
            snd (update this resource params) =
              Inr (obj_spread [(''id'', id_value (up_id params))] (Some (up_data params)))))) \<and>
   (\<exists>req. fst (delete this resource dparams) = [req] \<and>
      (\<forall>json. httpClient this req = Inr json \<longrightarrow>
         snd (delete this resource dparams) =
           Inr (obj_spread [(''id'', id_value (de_id dparams))] (de_previousData dparams)) \<and>
         (de_previousData dparams = None \<longrightarrow>
            snd (delete this resource dparams) = Inr [(''id'', id_value (de_id dparams))])))"
proof (rule conjI)
  obtain req where r: "fst (update this resource params) = [req]"
    and s: "snd (update this resource params) =
       (case httpClient this req of
          Inl err \<Rightarrow> Inl err
        | Inr json \<Rightarrow>
            Inr (obj_spread
                   (obj_spread [(''id'', id_value (up_id params))] (up_previousData params))
                   (Some (up_data params))))"
    using update_outcome by blast
  show "\<exists>req. fst (update this resource params) = [req] \<and>
      (\<forall>json. httpClient this req = Inr json \<longrightarrow>
         snd (update this resource params) =
           Inr (obj_spread
                  (obj_spread [(''id'', id_value (up_id params))] (up_previousData params))
                  (Some (up_data params))) \<and>
         (up_previousData params = None \<longrightarrow>
            snd (update this resource params) =
              Inr (obj_spread [(''id'', id_value (up_id params))] (Some (up_data params)))))"
    by (rule exI [of _ req]) (simp add: r s obj_spread_def)
next
  obtain req where r: "fst (delete this resource dparams) = [req]"
    and s: "snd (delete this resource dparams) =
       (case httpClient this req of
          Inl err \<Rightarrow> Inl err
        | Inr json \<Rightarrow>
            Inr (obj_spread [(''id'', id_value (de_id dparams))] (de_previousData dparams)))"
    using delete_outcome by blast
  show "\<exists>req. fst (delete this resource dparams) = [req] \<and>
      (\<forall>json. httpClient this req = Inr json \<longrightarrow>
         snd (delete this resource dparams) =
           Inr (obj_spread [(''id'', id_value (de_id dparams))] (de_previousData dparams)) \<and>
         (de_previousData dparams = None \<longrightarrow>
            snd (delete this resource dparams) = Inr [(''id'', id_value (de_id dparams))]))"
    by (rule exI [of _ req]) (simp add: r s obj_spread_def)
qed

text \<open>The theorem at the calls of the test, without \<^verbatim>\<open>previousData\<close>.\<close>

theorem update_delete_result_shape_witness:
  "snd (update (new_TreeQLDataProvider ''http://myApi.com/'' (\<lambda>r. Inr JNull)) ''comment''
      \<lparr>up_id = IdNum 1, up_data = [(''title'', JStr ''New Title'')],
       up_previousData = None, up_meta = None\<rparr>) =
     Inr [(''id'', JNum 1), (''title'', JStr ''New Title'')] \<and>
   snd (delete (new_TreeQLDataProvider ''http://myApi.com/'' (\<lambda>r. Inr JNull)) ''comment''
      \<lparr>de_id = IdNum 1, de_previousData = None, de_meta = None\<rparr>) =
     Inr [(''id'', JNum 1)]"
proof -
  let ?dp = "new_TreeQLDataProvider ''http://myApi.com/'' (\<lambda>r. Inr JNull)"
  let ?u = "\<lparr>up_id = IdNum 1, up_data = [(''title'', JStr ''New Title'')],
       up_previousData = None, up_meta = None\<rparr>"
  let ?d = "\<lparr>de_id = IdNum 1, de_previousData = None, de_meta = None\<rparr>"
  have c: "httpClient ?dp req = Inr JNull" for req by (simp add: httpClient_new)
  note T = update_delete_result_shape [of ?dp "''comment''" ?u ?d]
  from T [THEN conjunct1] obtain req where
    "\<forall>json. httpClient ?dp req = Inr json \<longrightarrow>
         snd (update ?dp ''comment'' ?u) =
           Inr (obj_spread (obj_spread [(''id'', id_value (up_id ?u))] (up_previousData ?u))
                  (Some (up_data ?u))) \<and>
         (up_previousData ?u = None \<longrightarrow>
            snd (update ?dp ''comment'' ?u) =
              Inr (obj_spread [(''id'', id_value (up_id ?u))] (Some (up_data ?u))))"
    by blast
  from this [rule_format, OF c]
  have 1: "snd (update ?dp ''comment'' ?u) = Inr [(''id'', JNum 1), (''title'', JStr ''New Title'')]"
    by (simp add: obj_spread_def obj_set_def)
  from T [THEN conjunct2] obtain req where
    "\<forall>json. httpClient ?dp req = Inr json \<longrightarrow>
         snd (delete ?dp ''comment'' ?d) =
           Inr (obj_spread [(''id'', id_value (de_id ?d))] (de_previousData ?d)) \<and>
         (de_previousData ?d = None \<longrightarrow>
            snd (delete ?dp ''comment'' ?d) = Inr [(''id'', id_value (de_id ?d))])"
    by blast
  from this [rule_format, OF c]
  have 2: "snd (delete ?dp ''comment'' ?d) = Inr [(''id'', JNum 1)]"
    by (simp add: obj_spread_def)
  from 1 2 show ?thesis by (rule conjI)
qed

text \<open>
  Claim C6, as the code has it. When \<open>getList\<close> has issued its request and the client
  answers it with a body other than \<^verbatim>\<open>null\<close> and \<^verbatim>\<open>undefined\<close>, the result is
  \<^verbatim>\<open>{ data: body.records, total: body.results }\<close>: the total is the count of the body as
  it is, and \<^verbatim>\<open>undefined\<close> when the body has none.
\<close>

theorem getList_result_envelope:
  assumes "fst (getList this resource params) = [req]"
    and "httpClient this req = Inr json"
    and "json \<noteq> JUndefined" and "json \<noteq> JNull"
  shows "snd (getList this resource params) =
           Inr \<lparr>data = get_property json ''records'', total = get_property json ''results''\<rparr> \<and>
         (\<forall>es. json = JObj es \<and> map_of es ''results'' = None \<longrightarrow>
            snd (getList this resource params) =
              Inr \<lparr>data = get_property json ''records'', total = JUndefined\<rparr>) \<and>
         (\<forall>es r n. json = JObj es \<and> map_of es ''records'' = Some r \<and>
              map_of es ''results'' = Some n \<longrightarrow>
            snd (getList this resource params) = Inr \<lparr>data = r, total = n\<rparr>)"
  using getList_one_request [OF assms(1)] assms(2-4)
  by (simp add: records_and_results_def get_property_def)

text \<open>The theorem at the call and the answer of the test.\<close>

theorem getList_result_envelope_witness:
  "fst (getList (new_TreeQLDataProvider ''http://myApi.com/''
          (\<lambda>r. Inr (JObj [(''records'', JArr [JObj [(''id'', JNum 1)]]), (''results'', JNum 1)])))
        ''comment''
        \<lparr>gl_page = 1, gl_perPage = 10, gl_field = ''title'', gl_order = ''ASC'',
         gl_filter = Some [(''title_cs'', JStr ''Comm'')], gl_meta = None\<rparr>) =
     [\<lparr>url = ''http://myApi.com/records/comment?order=title,ASC&page=1,10&filter=title,cs,Comm'',
       options = None\<rparr>] \<and>
   snd (getList (new_TreeQLDataProvider ''http://myApi.com/''
          (\<lambda>r. Inr (JObj [(''records'', JArr [JObj [(''id'', JNum 1)]]), (''results'', JNum 1)])))
        ''comment''
        \<lparr>gl_page = 1, gl_perPage = 10, gl_field = ''title'', gl_order = ''ASC'',
         gl_filter = Some [(''title_cs'', JStr ''Comm'')], gl_meta = None\<rparr>) =
     Inr \<lparr>data = JArr [JObj [(''id'', JNum 1)]], total = JNum 1\<rparr>"
proof -
  let ?json = "JObj [(''records'', JArr [JObj [(''id'', JNum 1)]]), (''results'', JNum 1)]"
  let ?dp = "new_TreeQLDataProvider ''http://myApi.com/'' (\<lambda>r. Inr ?json)"
  let ?p = "\<lparr>gl_page = 1, gl_perPage = 10, gl_field = ''title'', gl_order = ''ASC'',
         gl_filter = Some [(''title_cs'', JStr ''Comm'')], gl_meta = None\<rparr>"
  let ?req = "\<lparr>url = ''http://myApi.com/records/comment?order=title,ASC&page=1,10&filter=title,cs,Comm'',
       options = None\<rparr>"
  have a: "apiUrl ?dp = ''http://myApi.com''"
    using apiUrl_trailing_slash [of "''http://myApi.com''"] by simp
  have r: "fst (getList ?dp ''comment'' ?p) = [?req]"
    unfolding getList_def
    by (simp add: url_eval filter_eval a httpClient_new)
  have c: "httpClient ?dp ?req = Inr ?json" by (simp add: httpClient_new)
  from getList_result_envelope [OF r c]
  have "snd (getList ?dp ''comment'' ?p) = Inr \<lparr>data = JArr [JObj [(''id'', JNum 1)]], total = JNum 1\<rparr>"
    by (simp add: get_property_def)
  with r show ?thesis by (rule conjI)
qed

text \<open>Claim C6 as it is written has the total default to \<^verbatim>\<open>0\<close>. For the body
  \<^verbatim>\<open>{ records: [] }\<close>, which has no count, the total is \<^verbatim>\<open>undefined\<close>.\<close>

theorem getList_result_envelope_counterexample:
  "snd (getList (new_TreeQLDataProvider ''http://myApi.com/''
          (\<lambda>r. Inr (JObj [(''records'', JArr [])])))
        ''comment''
        \<lparr>gl_page = 1, gl_perPage = 10, gl_field = ''title'', gl_order = ''ASC'',
         gl_filter = None, gl_meta = None\<rparr>) =
     Inr \<lparr>data = JArr [], total = JUndefined\<rparr> \<and>
   snd (getList (new_TreeQLDataProvider ''http://myApi.com/''
          (\<lambda>r. Inr (JObj [(''records'', JArr [])])))
        ''comment''
        \<lparr>gl_page = 1, gl_perPage = 10, gl_field = ''title'', gl_order = ''ASC'',
         gl_filter = None, gl_meta = None\<rparr>) \<noteq>
     Inr \<lparr>data = JArr [], total = JNum 0\<rparr>"
  unfolding getList_def
  by (simp add: url_eval httpClient_new records_and_results_def get_property_def)

end
